theory Spec2Isabelle
  imports Complex_Main
begin

section \<open>Numbers\<close>

text \<open>
  The landing predictor of \<^verbatim>\<open>src/utils/geo.ts\<close> computes with JavaScript numbers.
  They are modelled as exact reals, with one exception: the clock \<^verbatim>\<open>t\<close> of the integrator,
  whose sum the specification compares with a product, is added up in double precision
  (\<open>round64\<close> below). Elsewhere rounding and overflow are outside the model. An
  operation that leaves the finite numbers at finite operands (a division by zero, a
  negative base raised to a fractional power) yields \<open>Infinity\<close> or \<open>NaN\<close> in the source
  and never raises; the model returns the explicit value \<open>Inl NotFinite\<close> there instead of
  inventing a number, and a computation that meets one is \<open>Inl NotFinite\<close> as a whole.
  The step counter of the integrator only ever holds small whole numbers and is a \<open>nat\<close>.
\<close>

datatype numeric_error = NotFinite

text \<open>The operator \<^verbatim>\<open>/\<close>.\<close>

definition js_div :: "real \<Rightarrow> real \<Rightarrow> numeric_error + real" where
  "js_div a b = (if b = 0 then Inl NotFinite else Inr (a / b))"

text \<open>
  \<^verbatim>\<open>Math.pow\<close>: 1 for the exponent 0, the real power for a positive base, and for a
  negative base a number only when the exponent is whole.
\<close>

definition js_pow :: "real \<Rightarrow> real \<Rightarrow> numeric_error + real" where
  "js_pow x y =
     (if y = 0 then Inr 1
      else if 0 < x then Inr (x powr y)
      else if x = 0 then (if 0 < y then Inr 0 else Inl NotFinite)
      else if frac y = 0 then Inr (x powi \<lfloor>y\<rfloor>)
      else Inl NotFinite)"

text \<open>The operator \<^verbatim>\<open>%\<close>: the remainder of the division truncated towards zero.\<close>

definition js_rem :: "real \<Rightarrow> real \<Rightarrow> numeric_error + real" where
  "js_rem a b =
     (if b = 0 then Inl NotFinite
      else Inr (a - b * (if 0 \<le> a / b then of_int \<lfloor>a / b\<rfloor> else of_int \<lceil>a / b\<rceil>)))"

text \<open>
  Rounding to the nearest double (IEEE 754 binary64, ties to the even significand): a
  number in the binade \<open>[2 ^ e, 2 ^ (e + 1))\<close> is rounded to a multiple of \<open>2 ^ (e - 52)\<close>.
  The exponent is not bounded here; the clock stays between 0.2 and 3600, far from the
  subnormal numbers and from overflow.
\<close>

definition rne :: "real \<Rightarrow> int" where
  "rne y =
     (let f = \<lfloor>y\<rfloor>; r = y - of_int f
      in if r < 1 / 2 then f else if 1 / 2 < r then f + 1 else if even f then f else f + 1)"

definition round64 :: "real \<Rightarrow> real" where
  "round64 x =
     (if x = 0 then 0
      else (let e = \<lfloor>log 2 \<bar>x\<bar>\<rfloor>; u = 2 powi (e - 52) in of_int (rne (x / u)) * u))"

section \<open>Constants\<close>

definition R_EARTH :: real where "R_EARTH = 6371000"
definition G :: real where "G = 9.81"
definition R_GAS :: real where "R_GAS = 287.05"
definition T_STD :: real where "T_STD = 288.15"
definition P_STD :: real where "P_STD = 101325"
definition L_RATE :: real where "L_RATE = 0.0065"

section \<open>Atmosphere model\<close>

text \<open>
  The three lines of the standard-atmosphere relation, which \<^verbatim>\<open>getAirDensity\<close> writes
  out twice: once for the requested altitude and once for the reference altitude.
\<close>

definition isaDensity :: "real \<Rightarrow> numeric_error + real" where
  "isaDensity altitude =
     (let temperature = T_STD - (L_RATE * altitude) in
      case js_pow (1 - (L_RATE * altitude) / T_STD) 5.2561 of
        Inl e \<Rightarrow> Inl e
      | Inr pressureRatio \<Rightarrow> js_div (P_STD * pressureRatio) (R_GAS * temperature))"

definition getAirDensity :: "real \<Rightarrow> real \<Rightarrow> real \<Rightarrow> numeric_error + real" where
  "getAirDensity altitude refDensity refAlt =
     (if altitude > 40000 then Inr 0
      else case isaDensity altitude of
        Inl e \<Rightarrow> Inl e
      | Inr isaD \<Rightarrow>
          if refDensity > 0.1 then
            (case isaDensity refAlt of
               Inl e \<Rightarrow> Inl e
             | Inr refIsaDensity \<Rightarrow>
                 (case js_div refDensity refIsaDensity of
                    Inl e \<Rightarrow> Inl e
                  | Inr factor \<Rightarrow> Inr (isaD * factor)))
          else Inr isaD)"

section \<open>Settings\<close>

text \<open>
  The settings types of the repository, with the fields the predictor reads. A field the
  code tests for absence (\<^verbatim>\<open>??\<close>, \<^verbatim>\<open>||\<close>, \<^verbatim>\<open>!== undefined\<close>) is an option.
\<close>

record WindLayer =
  altitude :: real
  speed :: real
  direction :: real

datatype WindMode = Single | Gradient

record WindSettings =
  mode :: WindMode
  speed :: "real option"
  direction :: "real option"
  layers :: "WindLayer list option"
  windSpeed :: "real option"
  windDirection :: "real option"

record DescentSettings =
  mass :: real
  parachuteArea :: real
  dragCoefficient :: real

datatype HeadingSource = Gps | Imu | Fused | Auto

record LandingSettings =
  headingSource :: HeadingSource
  gpsWeight :: "real option"

record HistoryPoint =
  latitude :: real
  longitude :: real
  timeElapsed :: real

text \<open>The value \<^verbatim>\<open>{ speed, dir }\<close> of \<^verbatim>\<open>getWindAtAltitude\<close>.\<close>

record Wind =
  speed :: real
  dir :: real

section \<open>Wind field model\<close>

text \<open>
  The \<^verbatim>\<open>for\<close> loop of \<^verbatim>\<open>getWindAtAltitude\<close> over the adjacent pairs of layers: the first
  pair that brackets the altitude decides, and \<^verbatim>\<open>{ speed: 0, dir: 0 }\<close> is the result when
  none does.
\<close>

fun interpolateLayers :: "real \<Rightarrow> WindLayer list \<Rightarrow> numeric_error + Wind" where
  "interpolateLayers alt (lower # upper # rest) =
     (if alt \<ge> altitude lower \<and> alt \<le> altitude upper then
        (case js_div (alt - altitude lower) (altitude upper - altitude lower) of
           Inl e \<Rightarrow> Inl e
         | Inr ratio \<Rightarrow>
             Inr \<lparr>Wind.speed = WindLayer.speed lower
                      + (WindLayer.speed upper - WindLayer.speed lower) * ratio,
                  dir = WindLayer.direction lower
                      + (WindLayer.direction upper - WindLayer.direction lower) * ratio\<rparr>)
      else interpolateLayers alt (upper # rest))"
| "interpolateLayers alt ls = Inr \<lparr>Wind.speed = 0, dir = 0\<rparr>"

definition getWindAtAltitude :: "real \<Rightarrow> WindSettings \<Rightarrow> numeric_error + Wind" where
  "getWindAtAltitude alt settings =
     (case mode settings of
        Single \<Rightarrow>
          (let s = (case WindSettings.speed settings of
                      Some v \<Rightarrow> v
                    | None \<Rightarrow> (case windSpeed settings of Some v \<Rightarrow> v | None \<Rightarrow> 0));
               d = (case WindSettings.direction settings of
                      Some v \<Rightarrow> v
                    | None \<Rightarrow> (case windDirection settings of Some v \<Rightarrow> v | None \<Rightarrow> 0))
           in Inr \<lparr>Wind.speed = s, dir = d\<rparr>)
      | Gradient \<Rightarrow>
          (let ls = (case layers settings of Some l \<Rightarrow> l | None \<Rightarrow> []) in
           if length ls = 0 then Inr \<lparr>Wind.speed = 0, dir = 0\<rparr>
           else if alt \<le> altitude (ls ! 0) then
             Inr \<lparr>Wind.speed = WindLayer.speed (ls ! 0), dir = WindLayer.direction (ls ! 0)\<rparr>
           else if alt \<ge> altitude (ls ! (length ls - 1)) then
             Inr \<lparr>Wind.speed = WindLayer.speed (ls ! (length ls - 1)),
                  dir = WindLayer.direction (ls ! (length ls - 1))\<rparr>
           else interpolateLayers alt ls))"

section \<open>Coordinates\<close>

text \<open>
  \<^verbatim>\<open>displaceCoordinate\<close>; the result is the pair of the new latitude and longitude. The
  divisor \<open>R_EARTH * cos rLat\<close> is zero in the exact model at the poles only (a latitude of
  90 degrees plus a multiple of 180); in double precision the cosine of a finite number is
  never exactly zero.
\<close>

definition displaceCoordinate ::
    "real \<Rightarrow> real \<Rightarrow> real \<Rightarrow> real \<Rightarrow> numeric_error + real \<times> real" where
  "displaceCoordinate lat lon dx dy =
     (let rLat = lat * pi / 180;
          dLat = (dy / R_EARTH) * (180 / pi)
      in case js_div dx (R_EARTH * cos rLat) of
           Inl e \<Rightarrow> Inl e
         | Inr q \<Rightarrow> (let dLon = q * (180 / pi) in Inr (lat + dLat, lon + dLon)))"

section \<open>Velocity fusion\<close>

text \<open>
  Part A of \<^verbatim>\<open>predictLanding\<close>: the ground-track vector \<^verbatim>\<open>(vN_gps, vE_gps)\<close> from the
  history; \<open>None\<close> is \<^verbatim>\<open>hasGpsVec = false\<close>.
\<close>

definition gpsVector :: "HistoryPoint list \<Rightarrow> (real \<times> real) option" where
  "gpsVector history =
     (if length history \<ge> 3 then
        (let pLast = history ! (length history - 1);
             pPrev = history ! (length history - 3);
             dtHist = (timeElapsed pLast - timeElapsed pPrev) / 1000
         in if dtHist > 0.1 \<and> dtHist < 3.0 then
              (let metersPerDegLat = 111320;
                   metersPerDegLon = 111320 * cos (latitude pLast * pi / 180);
                   dLat = latitude pLast - latitude pPrev;
                   dLon = longitude pLast - longitude pPrev
               in Some ((dLat * metersPerDegLat) / dtHist, (dLon * metersPerDegLon) / dtHist))
            else None)
      else None)"

text \<open>Part B: the heading vector \<^verbatim>\<open>(vN_imu, vE_imu)\<close>.\<close>

definition imuVector :: "real \<Rightarrow> real \<Rightarrow> real \<times> real" where
  "imuVector hSpeedCurrent headingCurrent =
     (let radHeading = headingCurrent * (pi / 180)
      in (hSpeedCurrent * cos radHeading, hSpeedCurrent * sin radHeading))"

text \<open>The weight \<^verbatim>\<open>gpsWeight\<close> of part C, for the sources \<^verbatim>\<open>fused\<close> and \<^verbatim>\<open>auto\<close>.\<close>

definition fusionWeight :: "LandingSettings \<Rightarrow> real \<Rightarrow> real" where
  "fusionWeight landingSettings hSpeedCurrent =
     (if headingSource landingSettings = Fused then
        (case gpsWeight landingSettings of Some w \<Rightarrow> w | None \<Rightarrow> 0.5)
      else (let isGuided = hSpeedCurrent > 5.0 in if isGuided then 0.3 else 0.8))"

text \<open>Part C: the initial horizontal velocity \<^verbatim>\<open>(vN, vE)\<close>.\<close>

definition fuseVelocity ::
    "HistoryPoint list \<Rightarrow> real \<Rightarrow> real \<Rightarrow> LandingSettings \<Rightarrow> real \<times> real" where
  "fuseVelocity history hSpeedCurrent headingCurrent landingSettings =
     (case imuVector hSpeedCurrent headingCurrent of (vN_imu, vE_imu) \<Rightarrow>
        (case gpsVector history of
           None \<Rightarrow> (vN_imu, vE_imu)
         | Some (vN_gps, vE_gps) \<Rightarrow>
             if headingSource landingSettings = Gps then (vN_gps, vE_gps)
             else if headingSource landingSettings = Imu then (vN_imu, vE_imu)
             else (let w = fusionWeight landingSettings hSpeedCurrent
                   in ((vN_gps * w) + (vN_imu * (1 - w)), (vE_gps * w) + (vE_imu * (1 - w))))))"

section \<open>Predictions\<close>

text \<open>A sample \<^verbatim>\<open>{ lat, lon, alt }\<close> of the path, and the result of a prediction.\<close>

record PathPoint =
  lat :: real
  lon :: real
  alt :: real

record LandingPrediction =
  lat :: real
  lon :: real
  timeToImpact :: real
  confidenceRadius :: real
  path :: "PathPoint list"

section \<open>Trajectory integrator\<close>

definition dt :: real where "dt = 0.2"
definition MAX_STEPS :: nat where "MAX_STEPS = 18000"

text \<open>
  The parameters of \<^verbatim>\<open>predictLanding\<close> that the simulation loop reads, and the variables
  it updates.
\<close>

record SimEnv =
  env_alt :: real
  env_groundAlt :: real
  env_currentDensity :: real
  env_descentSettings :: DescentSettings
  env_windSettings :: WindSettings

record SimState =
  vN :: real
  vE :: real
  vU :: real
  currentLat :: real
  currentLon :: real
  currentAlt :: real
  t :: real
  path :: "PathPoint list"
  steps :: nat
  isAscending :: bool

text \<open>The triple \<^verbatim>\<open>(mass, area, cd)\<close> of the flight phase.\<close>

definition phaseParameters :: "DescentSettings \<Rightarrow> bool \<Rightarrow> real \<times> real \<times> real" where
  "phaseParameters descentSettings ascending =
     (if ascending then (mass descentSettings * 2.0, 0.015, 0.5)
      else (if mass descentSettings > 0 then mass descentSettings else 1.0,
            if parachuteArea descentSettings > 0 then parachuteArea descentSettings else 0.5,
            if dragCoefficient descentSettings > 0 then dragCoefficient descentSettings
            else 1.5))"

text \<open>Part B of the loop body: the wind velocity \<^verbatim>\<open>(wN, wE, wU)\<close>.\<close>

definition windVelocity :: "Wind \<Rightarrow> numeric_error + real \<times> real \<times> real" where
  "windVelocity wind =
     (case js_rem (dir wind + 180) 360 of
        Inl e \<Rightarrow> Inl e
      | Inr r \<Rightarrow>
          (let windToRad = r * (pi / 180)
           in Inr (Wind.speed wind * cos windToRad, Wind.speed wind * sin windToRad, 0)))"

text \<open>Parts C and D: the drag force \<^verbatim>\<open>(fDragN, fDragE, fDragU)\<close> of a relative velocity.\<close>

definition dragForce ::
    "real \<Rightarrow> real \<Rightarrow> real \<Rightarrow> real \<times> real \<times> real \<Rightarrow> real \<times> real \<times> real" where
  "dragForce rho cd area rel =
     (case rel of (relN, relE, relU) \<Rightarrow>
        (let vRelSq = relN * relN + relE * relE + relU * relU;
             vRelMag = sqrt vRelSq;
             dragFactor = - 0.5 * rho * vRelMag * cd * area
         in (dragFactor * relN, dragFactor * relE, dragFactor * relU)))"

text \<open>Parts E and F: the acceleration \<^verbatim>\<open>(aN, aE, aU)\<close>.\<close>

definition acceleration ::
    "real \<Rightarrow> real \<times> real \<times> real \<Rightarrow> numeric_error + real \<times> real \<times> real" where
  "acceleration m fDrag =
     (case fDrag of (fDragN, fDragE, fDragU) \<Rightarrow>
        (let fGravU = - m * G in
         case js_div fDragN m of
           Inl e \<Rightarrow> Inl e
         | Inr aN \<Rightarrow>
             (case js_div fDragE m of
                Inl e \<Rightarrow> Inl e
              | Inr aE \<Rightarrow>
                  (case js_div (fDragU + fGravU) m of
                     Inl e \<Rightarrow> Inl e
                   | Inr aU \<Rightarrow> Inr (aN, aE, aU)))))"

text \<open>The reference density that a step hands to the atmosphere model.\<close>

definition stepRefDensity :: "SimEnv \<Rightarrow> SimState \<Rightarrow> real" where
  "stepRefDensity env s = (if t s = 0 then env_currentDensity env else 0)"

text \<open>Part A of the loop body: the density \<^verbatim>\<open>stepDensity\<close> of a step.\<close>

definition stepDensity :: "SimEnv \<Rightarrow> SimState \<Rightarrow> numeric_error + real" where
  "stepDensity env s = getAirDensity (currentAlt s) (stepRefDensity env s) (env_alt env)"

text \<open>Part C: the relative velocity \<^verbatim>\<open>(relN, relE, relU)\<close> of a step.\<close>

definition relativeVelocity :: "SimEnv \<Rightarrow> SimState \<Rightarrow> numeric_error + real \<times> real \<times> real" where
  "relativeVelocity env s =
     (case getWindAtAltitude (currentAlt s) (env_windSettings env) of
        Inl e \<Rightarrow> Inl e
      | Inr wind \<Rightarrow>
          (case windVelocity wind of
             Inl e \<Rightarrow> Inl e
           | Inr (wN, wE, wU) \<Rightarrow> Inr (vN s - wN, vE s - wE, vU s - wU)))"

text \<open>
  Parts G, H and I: the new state, from the acceleration of the step. The statement
  \<^verbatim>\<open>t += dt\<close> adds the double that the literal \<^verbatim>\<open>0.2\<close> denotes and rounds the sum.
\<close>

definition integrate ::
    "SimEnv \<Rightarrow> SimState \<Rightarrow> real \<times> real \<times> real \<Rightarrow> numeric_error + SimState" where
  "integrate env s a =
     (case a of (aN, aE, aU) \<Rightarrow>
        (let vN' = vN s + aN * dt;
             vE' = vE s + aE * dt;
             vU' = vU s + aU * dt;
             dLatMeters = vN' * dt;
             dLonMeters = vE' * dt
         in case displaceCoordinate (currentLat s) (currentLon s) dLonMeters dLatMeters of
              Inl e \<Rightarrow> Inl e
            | Inr (newLat, newLon) \<Rightarrow>
                (let currentAlt' = currentAlt s + vU' * dt;
                     t' = round64 (t s + round64 dt);
                     steps' = steps s + 1
                 in Inr \<lparr>vN = vN', vE = vE', vU = vU',
                         currentLat = newLat, currentLon = newLon, currentAlt = currentAlt',
                         t = t',
                         path =
                           (if steps' mod 5 = 0 \<or> currentAlt' \<le> env_groundAlt env then
                              SimState.path s
                                @ [\<lparr>PathPoint.lat = newLat, lon = newLon,
                                     alt = max (env_groundAlt env) currentAlt'\<rparr>]
                            else SimState.path s),
                         steps = steps',
                         isAscending =
                           (if isAscending s \<and> vU s \<le> 0 then False else isAscending s)\<rparr>)))"

text \<open>One run of the loop body.\<close>

definition simStep :: "SimEnv \<Rightarrow> SimState \<Rightarrow> numeric_error + SimState" where
  "simStep env s =
     (case phaseParameters (env_descentSettings env) (isAscending s) of (m, area, cd) \<Rightarrow>
        (case stepDensity env s of
           Inl e \<Rightarrow> Inl e
         | Inr rho \<Rightarrow>
             (case relativeVelocity env s of
                Inl e \<Rightarrow> Inl e
              | Inr rel \<Rightarrow>
                  (case acceleration m (dragForce rho cd area rel) of
                     Inl e \<Rightarrow> Inl e
                   | Inr a \<Rightarrow> integrate env s a))))"

lemma simStep_steps: "simStep env s = Inr s' \<Longrightarrow> steps s' = Suc (steps s)"
  by (auto simp add: simStep_def integrate_def Let_def split: sum.splits prod.splits)

text \<open>The \<^verbatim>\<open>while\<close> loop.\<close>

function simLoop :: "SimEnv \<Rightarrow> SimState \<Rightarrow> numeric_error + SimState" where
  "simLoop env s =
     (if currentAlt s > env_groundAlt env \<and> steps s < MAX_STEPS then
        (case simStep env s of
           Inl e \<Rightarrow> Inl e
         | Inr s' \<Rightarrow> simLoop env s')
      else Inr s)"
  by pat_completeness auto
termination
  by (relation "measure (\<lambda>(env, s). MAX_STEPS - steps s)") (auto dest: simStep_steps)

declare simLoop.simps [simp del]

text \<open>
  The states in which the loop started in \<open>s0\<close> tests its condition: \<open>s0\<close> itself, and the
  state that a run of the body leaves.
\<close>

inductive loopState :: "SimEnv \<Rightarrow> SimState \<Rightarrow> SimState \<Rightarrow> bool" for env s0 where
  start: "loopState env s0 s0"
| step: "loopState env s0 s \<Longrightarrow> currentAlt s > env_groundAlt env \<Longrightarrow> steps s < MAX_STEPS
          \<Longrightarrow> simStep env s = Inr s' \<Longrightarrow> loopState env s0 s'"

text \<open>The value of the clock \<^verbatim>\<open>t\<close> after \<open>n\<close> runs of the loop body that started at 0.\<close>

primrec tAfter :: "nat \<Rightarrow> real" where
  "tAfter 0 = 0"
| "tAfter (Suc n) = round64 (tAfter n + round64 dt)"

section \<open>Predictor\<close>

text \<open>The environment and the first state of the loop in \<^verbatim>\<open>predictLanding\<close>.\<close>

definition simEnv ::
    "real \<Rightarrow> real \<Rightarrow> real \<Rightarrow> DescentSettings \<Rightarrow> WindSettings \<Rightarrow> SimEnv" where
  "simEnv alt groundAlt currentDensity descentSettings windSettings =
     \<lparr>env_alt = alt, env_groundAlt = groundAlt, env_currentDensity = currentDensity,
      env_descentSettings = descentSettings, env_windSettings = windSettings\<rparr>"
  for alt

definition initialState :: "real \<Rightarrow> real \<Rightarrow> real \<Rightarrow> real \<Rightarrow> real \<Rightarrow> real \<Rightarrow> SimState" where
  "initialState lat lon alt vN0 vE0 vSpeedCurrent =
     \<lparr>vN = vN0, vE = vE0, vU = vSpeedCurrent,
      currentLat = lat, currentLon = lon, currentAlt = alt,
      t = 0, path = [], steps = 0,
      isAscending = (vSpeedCurrent > 0)\<rparr>"
  for lat lon alt

text \<open>
  \<^verbatim>\<open>predictLanding\<close>. The result \<open>Inr None\<close> is \<^verbatim>\<open>null\<close>, \<open>Inr (Some r)\<close> is the prediction
  \<open>r\<close>, and \<open>Inl NotFinite\<close> stands for a returned prediction whose numbers the model
  does not determine: the numbers that the source computes from \<open>Infinity\<close> or \<open>NaN\<close>
  when a step divides by a mass of zero, and those of a path that passes through a pole,
  where the exact cosine is zero and the one of the source is not.
\<close>

definition predictLanding ::
    "real \<Rightarrow> real \<Rightarrow> real \<Rightarrow> real \<Rightarrow> real \<Rightarrow> real \<Rightarrow> DescentSettings \<Rightarrow> WindSettings
      \<Rightarrow> LandingSettings \<Rightarrow> real \<Rightarrow> real \<Rightarrow> HistoryPoint list
      \<Rightarrow> numeric_error + LandingPrediction option" where
  "predictLanding lat lon alt vSpeedCurrent hSpeedCurrent headingCurrent
       descentSettings windSettings landingSettings groundAlt currentDensity history =
     (if alt < 5 then Inr None
      else if \<bar>lat\<bar> < 0.0001 \<and> \<bar>lon\<bar> < 0.0001 then Inr None
      else
        (case fuseVelocity history hSpeedCurrent headingCurrent landingSettings of
           (vN0, vE0) \<Rightarrow>
             (case simLoop
                     (simEnv alt groundAlt currentDensity descentSettings windSettings)
                     (initialState lat lon alt vN0 vE0 vSpeedCurrent) of
                Inl e \<Rightarrow> Inl e
              | Inr s \<Rightarrow>
                  (let path' =
                         (if length (SimState.path s) > 0
                             \<and> PathPoint.alt (SimState.path s ! (length (SimState.path s) - 1))
                                 > groundAlt
                          then SimState.path s
                                 @ [\<lparr>PathPoint.lat = currentLat s, lon = currentLon s,
                                      alt = groundAlt\<rparr>]
                          else SimState.path s);
                       confidence = 15 + (alt * 0.05) + (t s * 0.5)
                   in Inr (Some \<lparr>LandingPrediction.lat = currentLat s,
                                  lon = currentLon s,
                                  timeToImpact = t s,
                                  confidenceRadius = confidence,
                                  path = path'\<rparr>)))))"
  for lat lon alt

section \<open>Sample inputs\<close>

text \<open>
  The settings of the scenario of section 8 of the specification (a payload of 1 kg under a
  parachute of 0.5 square metres with drag coefficient 1.5, no wind), used where a result is
  shown at a concrete input.
\<close>

definition scenarioDescent :: DescentSettings where
  "scenarioDescent = \<lparr>mass = 1.0, parachuteArea = 0.5, dragCoefficient = 1.5\<rparr>"

definition calmWind :: WindSettings where
  "calmWind = \<lparr>mode = Single, speed = Some 0, direction = Some 0, layers = Some [],
                windSpeed = None, windDirection = None\<rparr>"

definition autoPolicy :: LandingSettings where
  "autoPolicy = \<lparr>headingSource = Auto, gpsWeight = Some 0.5\<rparr>"

text \<open>
  The state after the one step of a descent at 10 m/s that starts at 50000 m, one metre
  above the ground, and the prediction of that run. The clock holds the double nearest to
  0.2, which is \<open>3602879701896397 / 2 ^ 54\<close>.
\<close>

definition sampleLanded :: SimState where
  "sampleLanded =
     \<lparr>vN = 0, vE = 0, vU = - 11.962,
      currentLat = 0, currentLon = 1, currentAlt = 49997.6076,
      t = 3602879701896397 / 18014398509481984,
      path = [\<lparr>PathPoint.lat = 0, lon = 1, alt = 49999\<rparr>], steps = 1,
      isAscending = False\<rparr>"




text \<open>A history of three fixes, half a second apart, moving north.\<close>

definition sampleHistory :: "HistoryPoint list" where
  "sampleHistory =
     [\<lparr>latitude = 0, longitude = 1, timeElapsed = 0\<rparr>,
      \<lparr>latitude = 0.0005, longitude = 1, timeElapsed = 500\<rparr>,
      \<lparr>latitude = 0.001, longitude = 1, timeElapsed = 1000\<rparr>]"

text \<open>A gradient wind field of three layers.\<close>

definition sampleLayers :: "WindLayer list" where
  "sampleLayers =
     [\<lparr>altitude = 0, speed = 2, direction = 10\<rparr>,
      \<lparr>altitude = 1000, speed = 6, direction = 350\<rparr>,
      \<lparr>altitude = 3000, speed = 10, direction = 30\<rparr>]"

definition gradientWind :: WindSettings where
  "gradientWind = \<lparr>mode = Gradient, speed = Some 0, direction = Some 0,
                    layers = Some sampleLayers, windSpeed = None, windDirection = None\<rparr>"

text \<open>
  The layers of the default settings (\<^verbatim>\<open>DEFAULT_SETTINGS.wind.layers\<close>) after one click on
  \<^verbatim>\<open>Add Layer\<close> in the settings dialog, which appends a layer at 1000 m and sorts by
  altitude (\<^verbatim>\<open>addWindLayer\<close>).
\<close>

definition dialogLayers :: "WindLayer list" where
  "dialogLayers =
     [\<lparr>altitude = 0, speed = 2, direction = 45\<rparr>,
      \<lparr>altitude = 500, speed = 5, direction = 90\<rparr>,
      \<lparr>altitude = 1000, speed = 12, direction = 120\<rparr>,
      \<lparr>altitude = 1000, speed = 5, direction = 0\<rparr>]"

definition dialogWind :: WindSettings where
  "dialogWind = \<lparr>mode = Gradient, speed = Some 5, direction = Some 0,
                  layers = Some dialogLayers, windSpeed = None, windDirection = None\<rparr>"

section \<open>The atmosphere model: results\<close>

lemma isaDensity_unfold:
  "isaDensity h =
     (case js_pow (1 - (L_RATE * h) / T_STD) 5.2561 of
        Inl e \<Rightarrow> Inl e
      | Inr pw \<Rightarrow> js_div (P_STD * pw) (R_GAS * (T_STD - (L_RATE * h))))"
  by (simp add: isaDensity_def Let_def)

lemma js_pow_pos: "0 < x \<Longrightarrow> y \<noteq> 0 \<Longrightarrow> js_pow x y = Inr (x powr y)"
  by (simp add: js_pow_def)

lemma js_pow_neg: "x < 0 \<Longrightarrow> frac y \<noteq> 0 \<Longrightarrow> js_pow x y = Inl NotFinite"
  by (auto simp add: js_pow_def)

lemma isaDensity_below:
  assumes "h * L_RATE < T_STD"
  shows "\<exists>d. isaDensity h = Inr d \<and> 0 < d"
proof -
  define base where "base = 1 - (L_RATE * h) / T_STD"
  define den where "den = R_GAS * (T_STD - (L_RATE * h))"
  have b: "0 < base"
    using assms unfolding base_def T_STD_def L_RATE_def by simp
  have t: "0 < den"
    using assms unfolding den_def T_STD_def L_RATE_def R_GAS_def by simp
  have "0 < base powr 5.2561"
    using b by simp
  then have p: "0 < P_STD * base powr 5.2561"
    unfolding P_STD_def by simp
  have q: "0 < P_STD * base powr 5.2561 / den"
    using p t by (rule divide_pos_pos)
  have "isaDensity h = Inr (P_STD * base powr 5.2561 / den)"
    using t unfolding isaDensity_unfold base_def [symmetric] den_def [symmetric]
    by (simp add: js_pow_pos [OF b] js_div_def)
  with q show ?thesis by simp
qed

lemma isaDensity_above:
  assumes "T_STD \<le> h * L_RATE"
  shows "isaDensity h = Inl NotFinite"
proof (cases "T_STD = h * L_RATE")
  case True
  then have z: "1 - (L_RATE * h) / T_STD = 0" "T_STD - (L_RATE * h) = 0"
    unfolding T_STD_def L_RATE_def by simp_all
  show ?thesis
    unfolding isaDensity_unfold z by (simp add: js_pow_def js_div_def)
next
  case False
  with assms have "1 - (L_RATE * h) / T_STD < 0"
    unfolding T_STD_def L_RATE_def by simp
  then show ?thesis
    unfolding isaDensity_unfold by (simp add: js_pow_neg frac_def)
qed

lemma low_altitude_below: "\<not> 40000 < h \<Longrightarrow> h * L_RATE < T_STD"
  unfolding T_STD_def L_RATE_def by simp

lemma getAirDensity_defined:
  assumes "40000 < h \<or> refDensity \<le> 0.1 \<or> refAlt * L_RATE < T_STD"
  shows "\<exists>d. getAirDensity h refDensity refAlt = Inr d \<and> 0 \<le> d"
proof (cases "40000 < h")
  case True
  then show ?thesis by (simp add: getAirDensity_def)
next
  case high: False
  then obtain d where d: "isaDensity h = Inr d" "0 < d"
    using isaDensity_below [OF low_altitude_below] by blast
  show ?thesis
  proof (cases "refDensity \<le> 0.1")
    case True
    with high d show ?thesis by (simp add: getAirDensity_def)
  next
    case cal: False
    with high assms have "refAlt * L_RATE < T_STD" by blast
    then obtain r where r: "isaDensity refAlt = Inr r" "0 < r"
      using isaDensity_below by blast
    with high cal d show ?thesis
      by (simp add: getAirDensity_def js_div_def)
  qed
qed

lemma getAirDensity_uncalibrated:
  "getAirDensity h 0 refAlt = (if h > 40000 then Inr 0 else isaDensity h)"
  by (simp add: getAirDensity_def split: sum.splits)

lemma getAirDensity_undefined:
  assumes "\<not> 40000 < h" and "0.1 < refDensity" and "T_STD \<le> refAlt * L_RATE"
  shows "getAirDensity h refDensity refAlt = Inl NotFinite"
proof -
  obtain d where "isaDensity h = Inr d"
    using isaDensity_below [OF low_altitude_below [OF assms(1)]] by blast
  moreover have "isaDensity refAlt = Inl NotFinite"
    using assms(3) by (rule isaDensity_above)
  ultimately show ?thesis
    using assms(1,2) by (simp add: getAirDensity_def)
qed

text \<open>
  Claim C8, as amended. \<^verbatim>\<open>getAirDensity\<close> raises nothing. Above 40000 m it returns 0. At
  or below 40000 m, and not below \<open>- 10 ^ 9\<close> m, it returns a positive number: the density
  of the standard atmosphere when the reference density is at most 0.1 (no calibration), and
  that density scaled by the reference density over the standard density at the reference
  altitude when the reference density lies in \<open>(0.1, 10 ^ 9]\<close> and the reference altitude in
  \<open>[- 10 ^ 9, 44330]\<close>. At or below 40000 m with a reference density above 0.1 and a
  reference altitude of 44331 m or more, the result is \<open>NaN\<close>. The base of the power
  changes sign between 44330 m and 44331 m, at \<open>T_STD / L_RATE\<close>; the bounds \<open>10 ^ 9\<close> keep
  the numbers of the source far from the overflow of double precision, which the exact
  model does not have.
\<close>

theorem getAirDensity_finite_range:
  "(40000 < h \<longrightarrow> getAirDensity h refDensity refAlt = Inr 0)
   \<and> (- (10 ^ 9) \<le> h \<and> h \<le> 40000 \<and> refDensity \<le> 0.1 \<longrightarrow>
        (\<exists>d. isaDensity h = Inr d \<and> 0 < d \<and> getAirDensity h refDensity refAlt = Inr d))
   \<and> (- (10 ^ 9) \<le> h \<and> h \<le> 40000 \<and> 0.1 < refDensity \<and> refDensity \<le> 10 ^ 9
          \<and> - (10 ^ 9) \<le> refAlt \<and> refAlt \<le> 44330 \<longrightarrow>
        (\<exists>d r. isaDensity h = Inr d \<and> 0 < d \<and> isaDensity refAlt = Inr r \<and> 0 < r
           \<and> getAirDensity h refDensity refAlt = Inr (d * (refDensity / r))
           \<and> 0 < d * (refDensity / r)))
   \<and> (h \<le> 40000 \<and> 0.1 < refDensity \<and> 44331 \<le> refAlt \<longrightarrow>
        getAirDensity h refDensity refAlt = Inl NotFinite)"
proof (intro conjI impI)
  assume "40000 < h"
  then show "getAirDensity h refDensity refAlt = Inr 0"
    by (simp add: getAirDensity_def)
next
  assume a: "- (10 ^ 9) \<le> h \<and> h \<le> 40000 \<and> refDensity \<le> 0.1"
  then have "\<not> 40000 < h" by simp
  then obtain d where d: "isaDensity h = Inr d" "0 < d"
    using isaDensity_below [OF low_altitude_below] by blast
  with a show "\<exists>d. isaDensity h = Inr d \<and> 0 < d \<and> getAirDensity h refDensity refAlt = Inr d"
    by (simp add: getAirDensity_def)
next
  assume a: "- (10 ^ 9) \<le> h \<and> h \<le> 40000 \<and> 0.1 < refDensity \<and> refDensity \<le> 10 ^ 9
          \<and> - (10 ^ 9) \<le> refAlt \<and> refAlt \<le> 44330"
  then have "\<not> 40000 < h" by simp
  then obtain d where d: "isaDensity h = Inr d" "0 < d"
    using isaDensity_below [OF low_altitude_below] by blast
  have "refAlt * L_RATE < T_STD"
    using a unfolding T_STD_def L_RATE_def by simp
  then obtain r where r: "isaDensity refAlt = Inr r" "0 < r"
    using isaDensity_below by blast
  have g: "getAirDensity h refDensity refAlt = Inr (d * (refDensity / r))"
    using a d r by (simp add: getAirDensity_def js_div_def)
  have "0 < refDensity" using a by simp
  then have "0 < refDensity / r" using r(2) by simp
  with d(2) have "0 < d * (refDensity / r)" by (rule mult_pos_pos)
  with d r g
  show "\<exists>d r. isaDensity h = Inr d \<and> 0 < d \<and> isaDensity refAlt = Inr r \<and> 0 < r
           \<and> getAirDensity h refDensity refAlt = Inr (d * (refDensity / r))
           \<and> 0 < d * (refDensity / r)"
    by blast
next
  assume a: "h \<le> 40000 \<and> 0.1 < refDensity \<and> 44331 \<le> refAlt"
  then have "T_STD \<le> refAlt * L_RATE"
    unfolding T_STD_def L_RATE_def by simp
  with a show "getAirDensity h refDensity refAlt = Inl NotFinite"
    by (intro getAirDensity_undefined) simp_all
qed

theorem getAirDensity_finite_range_witness:
  "getAirDensity 50000 1.2 0 = Inr 0
   \<and> (\<exists>d. isaDensity 0 = Inr d \<and> 0 < d \<and> getAirDensity 0 0 0 = Inr d)
   \<and> (\<exists>d r. isaDensity 1000 = Inr d \<and> 0 < d \<and> isaDensity 100 = Inr r \<and> 0 < r
         \<and> getAirDensity 1000 1.2 100 = Inr (d * (1.2 / r)) \<and> 0 < d * (1.2 / r))
   \<and> getAirDensity 1000 1.2 44331 = Inl NotFinite"
  using getAirDensity_finite_range [of 50000 "1.2" 0] getAirDensity_finite_range [of 0 0 0]
    getAirDensity_finite_range [of 1000 "1.2" 100]
    getAirDensity_finite_range [of 1000 "1.2" 44331]
  by simp

text \<open>
  Claim C8, as stated, fails: with a live reference density of 1.2 taken at a reference
  altitude of 50000 m, the base of the power is negative and the result is \<open>NaN\<close>.
\<close>

theorem getAirDensity_not_finite: "getAirDensity 0 1.2 50000 = Inl NotFinite"
  by (rule getAirDensity_undefined) (simp_all add: T_STD_def L_RATE_def)

section \<open>The wind field model: results\<close>

text \<open>
  The wind is a pair of finite numbers for every altitude and every setting: the loop
  divides by the difference of two altitudes only after it has found the lower one strictly
  below the requested altitude.
\<close>

lemma interpolateLayers_defined:
  "ls \<noteq> [] \<Longrightarrow> altitude (hd ls) < h \<Longrightarrow> \<exists>w. interpolateLayers h ls = Inr w"
proof (induction h ls rule: interpolateLayers.induct)
  case (1 h lower upper rest)
  show ?case
  proof (cases "h \<ge> altitude lower \<and> h \<le> altitude upper")
    case True
    with "1.prems" have "altitude upper - altitude lower \<noteq> 0" by simp
    with True show ?thesis by (simp add: js_div_def)
  next
    case False
    with "1.prems" have "altitude upper < h" by simp
    with "1.IH" False show ?thesis by simp
  qed
qed simp_all

lemma getWindAtAltitude_defined: "\<exists>w. getWindAtAltitude h settings = Inr w"
proof (cases "mode settings")
  case Single
  then show ?thesis by (simp add: getWindAtAltitude_def Let_def)
next
  case Gradient
  define ls where "ls = (case layers settings of Some l \<Rightarrow> l | None \<Rightarrow> [])"
  show ?thesis
  proof (cases "ls = [] \<or> h \<le> altitude (ls ! 0) \<or> h \<ge> altitude (ls ! (length ls - 1))")
    case True
    with Gradient show ?thesis
      by (auto simp add: getWindAtAltitude_def Let_def ls_def [symmetric])
  next
    case False
    then have "ls \<noteq> []" "altitude (hd ls) < h"
      by (simp_all add: hd_conv_nth)
    from interpolateLayers_defined [OF this] obtain w where "interpolateLayers h ls = Inr w"
      by blast
    with False Gradient show ?thesis
      by (simp add: getWindAtAltitude_def Let_def ls_def [symmetric])
  qed
qed

lemma altitude_mono:
  assumes "sorted (map altitude ls)" "i \<le> j" "j < length ls"
  shows "altitude (ls ! i) \<le> altitude (ls ! j)"
  using sorted_nth_mono [OF assms(1), of i j] assms(2,3) by simp

text \<open>
  In a sorted list the loop stops at the pair \<open>(i, i + 1)\<close> when the altitude lies above
  layer \<open>i\<close> and not above layer \<open>i + 1\<close>: every earlier pair ends below the altitude.
\<close>

lemma interpolateLayers_bracket:
  assumes "sorted (map altitude ls)"
    and "Suc i < length ls"
    and "altitude (ls ! i) < h" and "h \<le> altitude (ls ! Suc i)"
  shows "interpolateLayers h ls =
           Inr \<lparr>Wind.speed = WindLayer.speed (ls ! i)
                    + (WindLayer.speed (ls ! Suc i) - WindLayer.speed (ls ! i))
                      * ((h - altitude (ls ! i)) / (altitude (ls ! Suc i) - altitude (ls ! i))),
                dir = WindLayer.direction (ls ! i)
                    + (WindLayer.direction (ls ! Suc i) - WindLayer.direction (ls ! i))
                      * ((h - altitude (ls ! i)) / (altitude (ls ! Suc i) - altitude (ls ! i)))\<rparr>"
  using assms
proof (induction h ls arbitrary: i rule: interpolateLayers.induct)
  case (1 h lower upper rest)
  show ?case
  proof (cases i)
    case 0
    with "1.prems" have "altitude lower < h" "h \<le> altitude upper"
      by simp_all
    then show ?thesis
      using 0 by (simp add: js_div_def)
  next
    case (Suc j)
    have srt: "sorted (map altitude (upper # rest))"
      using "1.prems"(1) by simp
    have j: "Suc j < length (upper # rest)"
      using "1.prems"(2) Suc by simp
    have lo: "altitude ((upper # rest) ! j) < h" and hi: "h \<le> altitude ((upper # rest) ! Suc j)"
      using "1.prems"(3,4) Suc by simp_all
    have "altitude upper \<le> altitude ((upper # rest) ! j)"
      using altitude_mono [OF srt, of 0 j] j by simp
    with lo have above: "\<not> h \<le> altitude upper"
      by simp
    then have "interpolateLayers h (lower # upper # rest) = interpolateLayers h (upper # rest)"
      by simp
    also have "\<dots> = Inr \<lparr>Wind.speed = WindLayer.speed ((upper # rest) ! j)
                  + (WindLayer.speed ((upper # rest) ! Suc j) - WindLayer.speed ((upper # rest) ! j))
                    * ((h - altitude ((upper # rest) ! j))
                        / (altitude ((upper # rest) ! Suc j) - altitude ((upper # rest) ! j))),
              dir = WindLayer.direction ((upper # rest) ! j)
                  + (WindLayer.direction ((upper # rest) ! Suc j)
                       - WindLayer.direction ((upper # rest) ! j))
                    * ((h - altitude ((upper # rest) ! j))
                        / (altitude ((upper # rest) ! Suc j) - altitude ((upper # rest) ! j)))\<rparr>"
      using "1.IH" [OF _ srt j lo hi] above by simp
    finally show ?thesis
      using Suc by simp
  qed
qed simp_all

lemma gradient_unfold:
  assumes "mode settings = Gradient" "layers settings = Some ls" "ls \<noteq> []"
  shows "getWindAtAltitude h settings =
           (if h \<le> altitude (ls ! 0) then
              Inr \<lparr>Wind.speed = WindLayer.speed (ls ! 0), dir = WindLayer.direction (ls ! 0)\<rparr>
            else if h \<ge> altitude (ls ! (length ls - 1)) then
              Inr \<lparr>Wind.speed = WindLayer.speed (ls ! (length ls - 1)),
                   dir = WindLayer.direction (ls ! (length ls - 1))\<rparr>
            else interpolateLayers h ls)"
  using assms by (simp add: getWindAtAltitude_def)

lemma gradient_low:
  assumes "mode settings = Gradient" "layers settings = Some ls" "ls \<noteq> []"
    and "h \<le> altitude (ls ! 0)"
  shows "getWindAtAltitude h settings =
           Inr \<lparr>Wind.speed = WindLayer.speed (ls ! 0), dir = WindLayer.direction (ls ! 0)\<rparr>"
  using assms(4) by (simp add: gradient_unfold [OF assms(1-3)])

lemma gradient_high:
  assumes "mode settings = Gradient" "layers settings = Some ls" "ls \<noteq> []"
    and "altitude (ls ! 0) < h" and "altitude (ls ! (length ls - 1)) \<le> h"
  shows "getWindAtAltitude h settings =
           Inr \<lparr>Wind.speed = WindLayer.speed (ls ! (length ls - 1)),
                dir = WindLayer.direction (ls ! (length ls - 1))\<rparr>"
  using assms(4,5) by (simp add: gradient_unfold [OF assms(1-3)])

lemma gradient_between:
  assumes "mode settings = Gradient" "layers settings = Some ls" "ls \<noteq> []"
    and srt: "sorted (map altitude ls)"
    and i: "Suc i < length ls"
    and lo: "altitude (ls ! i) < h" and hi: "h \<le> altitude (ls ! Suc i)"
    and top: "h < altitude (ls ! (length ls - 1))"
  shows "getWindAtAltitude h settings =
           Inr \<lparr>Wind.speed = WindLayer.speed (ls ! i)
                    + (WindLayer.speed (ls ! Suc i) - WindLayer.speed (ls ! i))
                      * ((h - altitude (ls ! i)) / (altitude (ls ! Suc i) - altitude (ls ! i))),
                dir = WindLayer.direction (ls ! i)
                    + (WindLayer.direction (ls ! Suc i) - WindLayer.direction (ls ! i))
                      * ((h - altitude (ls ! i)) / (altitude (ls ! Suc i) - altitude (ls ! i)))\<rparr>"
proof -
  have "altitude (ls ! 0) \<le> altitude (ls ! i)"
    using altitude_mono [OF srt, of 0 i] i by simp
  with lo have "\<not> h \<le> altitude (ls ! 0)"
    by simp
  with top have "getWindAtAltitude h settings = interpolateLayers h ls"
    by (simp add: gradient_unfold [OF assms(1-3)])
  then show ?thesis
    using interpolateLayers_bracket [OF srt i lo hi] by simp
qed

text \<open>
  Claim C5, as amended. For a gradient wind field whose layers are sorted by altitude, equal
  altitudes allowed, \<^verbatim>\<open>getWindAtAltitude\<close> returns the values of the first layer at or below
  its altitude and the values of the last layer at or above its altitude (and above the
  first layer). At an altitude above layer \<open>i\<close>, not above layer \<open>i + 1\<close> and below the last
  layer, it returns the linear blend of the two layers, of the speeds and of the raw
  directions, by the altitude fraction: \<open>lower + (upper - lower) * ratio\<close> with
  \<open>ratio = (h - altitude lower) / (altitude upper - altitude lower)\<close>, the expression of the
  source.
\<close>

theorem gradient_wind:
  assumes "mode settings = Gradient" and "layers settings = Some ls" and "ls \<noteq> []"
    and "sorted (map altitude ls)"
  shows "(h \<le> altitude (ls ! 0) \<longrightarrow>
            getWindAtAltitude h settings =
              Inr \<lparr>Wind.speed = WindLayer.speed (ls ! 0), dir = WindLayer.direction (ls ! 0)\<rparr>)
       \<and> (altitude (ls ! 0) < h \<and> altitude (ls ! (length ls - 1)) \<le> h \<longrightarrow>
            getWindAtAltitude h settings =
              Inr \<lparr>Wind.speed = WindLayer.speed (ls ! (length ls - 1)),
                   dir = WindLayer.direction (ls ! (length ls - 1))\<rparr>)
       \<and> (\<forall>i. Suc i < length ls \<and> altitude (ls ! i) < h \<and> h \<le> altitude (ls ! Suc i)
               \<and> h < altitude (ls ! (length ls - 1)) \<longrightarrow>
            getWindAtAltitude h settings =
              Inr \<lparr>Wind.speed = WindLayer.speed (ls ! i)
                       + (WindLayer.speed (ls ! Suc i) - WindLayer.speed (ls ! i))
                         * ((h - altitude (ls ! i))
                             / (altitude (ls ! Suc i) - altitude (ls ! i))),
                   dir = WindLayer.direction (ls ! i)
                       + (WindLayer.direction (ls ! Suc i) - WindLayer.direction (ls ! i))
                         * ((h - altitude (ls ! i))
                             / (altitude (ls ! Suc i) - altitude (ls ! i)))\<rparr>)"
  using gradient_low [OF assms(1-3)] gradient_high [OF assms(1-3)] gradient_between [OF assms]
  by blast

theorem gradient_wind_witness:
  "mode gradientWind = Gradient \<and> layers gradientWind = Some sampleLayers \<and> sampleLayers \<noteq> []
   \<and> sorted (map altitude sampleLayers)
   \<and> getWindAtAltitude (- 5) gradientWind = Inr \<lparr>Wind.speed = 2, dir = 10\<rparr>
   \<and> getWindAtAltitude 5000 gradientWind = Inr \<lparr>Wind.speed = 10, dir = 30\<rparr>
   \<and> getWindAtAltitude 250 gradientWind = Inr \<lparr>Wind.speed = 3, dir = 95\<rparr>"
proof -
  have m: "mode gradientWind = Gradient" and l: "layers gradientWind = Some sampleLayers"
    by (simp_all add: gradientWind_def)
  have ne: "sampleLayers \<noteq> []" and srt: "sorted (map altitude sampleLayers)"
    by (simp_all add: sampleLayers_def)
  note gw = gradient_wind [OF m l ne srt]
  have n: "length sampleLayers = 3"
    "sampleLayers ! 0 = \<lparr>altitude = 0, speed = 2, direction = 10\<rparr>"
    "sampleLayers ! Suc 0 = \<lparr>altitude = 1000, speed = 6, direction = 350\<rparr>"
    "sampleLayers ! 2 = \<lparr>altitude = 3000, speed = 10, direction = 30\<rparr>"
    by (simp_all add: sampleLayers_def)
  have "getWindAtAltitude (- 5) gradientWind = Inr \<lparr>Wind.speed = 2, dir = 10\<rparr>"
    using gw [of "- 5"] by (simp add: n)
  moreover have "getWindAtAltitude 5000 gradientWind = Inr \<lparr>Wind.speed = 10, dir = 30\<rparr>"
    using gw [of 5000] by (simp add: n)
  moreover have "getWindAtAltitude 250 gradientWind = Inr \<lparr>Wind.speed = 3, dir = 95\<rparr>"
  proof -
    from gw [of 250] have "Suc 0 < length sampleLayers \<and> altitude (sampleLayers ! 0) < 250
             \<and> 250 \<le> altitude (sampleLayers ! Suc 0)
             \<and> 250 < altitude (sampleLayers ! (length sampleLayers - 1)) \<longrightarrow>
            getWindAtAltitude 250 gradientWind =
              Inr \<lparr>Wind.speed = WindLayer.speed (sampleLayers ! 0)
                       + (WindLayer.speed (sampleLayers ! Suc 0) - WindLayer.speed (sampleLayers ! 0))
                         * ((250 - altitude (sampleLayers ! 0))
                             / (altitude (sampleLayers ! Suc 0) - altitude (sampleLayers ! 0))),
                   dir = WindLayer.direction (sampleLayers ! 0)
                       + (WindLayer.direction (sampleLayers ! Suc 0)
                            - WindLayer.direction (sampleLayers ! 0))
                         * ((250 - altitude (sampleLayers ! 0))
                             / (altitude (sampleLayers ! Suc 0) - altitude (sampleLayers ! 0)))\<rparr>"
      by blast
    then show ?thesis by (simp add: n)
  qed
  ultimately show ?thesis
    using m l ne srt by simp
qed

text \<open>
  Claim C5, as stated, fails: the layers of the default settings with the layer that the
  button \<^verbatim>\<open>Add Layer\<close> appends are sorted and hold two layers at 1000 m. At 1000 m, the
  altitude of the layer with speed 12 and direction 120, \<^verbatim>\<open>getWindAtAltitude\<close> returns the
  values of the other layer at that altitude.
\<close>

theorem gradient_wind_tied_layers:
  "mode dialogWind = Gradient \<and> layers dialogWind = Some dialogLayers
   \<and> sorted (map altitude dialogLayers)
   \<and> dialogLayers ! 2 = \<lparr>altitude = 1000, speed = 12, direction = 120\<rparr>
   \<and> getWindAtAltitude (altitude (dialogLayers ! 2)) dialogWind
       = Inr \<lparr>Wind.speed = 5, dir = 0\<rparr>"
  by (simp add: dialogWind_def dialogLayers_def getWindAtAltitude_def)

section \<open>Coordinates: results\<close>

text \<open>Bounds of \<open>pi\<close>, from Machin's formula and the series of the arc tangent.\<close>

lemma arctan_bounds_small:
  fixes x :: real
  assumes "0 < x" "x \<le> 1"
  shows "(\<Sum>i<2 * n. (- 1) ^ i * (1 / real (i * 2 + 1) * x ^ (i * 2 + 1))) \<le> arctan x"
    and "arctan x \<le> (\<Sum>i<2 * n + 1. (- 1) ^ i * (1 / real (i * 2 + 1) * x ^ (i * 2 + 1)))"
proof -
  have ax: "\<bar>x\<bar> \<le> 1" using assms by simp
  have pos: "0 < 1 / real (0 * 2 + 1) * x ^ (0 * 2 + 1)" using assms by simp
  from summable_Leibniz(2) [OF zeroseq_arctan_series [OF ax] monoseq_arctan_series [OF ax]] pos
  have "(\<Sum>i. (- 1) ^ i * (1 / real (i * 2 + 1) * x ^ (i * 2 + 1)))
          \<in> {\<Sum>i<2 * n. (- 1) ^ i * (1 / real (i * 2 + 1) * x ^ (i * 2 + 1)) ..
              \<Sum>i<2 * n + 1. (- 1) ^ i * (1 / real (i * 2 + 1) * x ^ (i * 2 + 1))}"
    by blast
  then show "(\<Sum>i<2 * n. (- 1) ^ i * (1 / real (i * 2 + 1) * x ^ (i * 2 + 1))) \<le> arctan x"
    and "arctan x \<le> (\<Sum>i<2 * n + 1. (- 1) ^ i * (1 / real (i * 2 + 1) * x ^ (i * 2 + 1)))"
    unfolding arctan_series [OF ax] by simp_all
qed

lemma pi_upper: "pi < 3.1417"
proof -
  have a: "arctan (1 / 5) \<le> 1 / 5 - 1 / 375 + 1 / 15625"
    using arctan_bounds_small(2) [of "1 / 5" 1] by (simp add: lessThan_Suc eval_nat_numeral)
  have b: "1 / 239 - 1 / 40955757 \<le> arctan (1 / 239)"
    using arctan_bounds_small(1) [of "1 / 239" 1] by (simp add: lessThan_Suc eval_nat_numeral)
  have "pi = 16 * arctan (1 / 5) - 4 * arctan (1 / 239)"
    using machin by simp
  with a b show ?thesis by simp
qed

lemma pi_lower: "3.1415 < pi"
proof -
  have a: "1 / 5 - 1 / 375 + 1 / 15625 - 1 / 546875 \<le> arctan (1 / 5)"
    using arctan_bounds_small(1) [of "1 / 5" 2]
    by (simp add: lessThan_Suc eval_nat_numeral)
  have b: "arctan (1 / 239) \<le> 1 / 239"
    using arctan_bounds_small(2) [of "1 / 239" 0] by simp
  have "pi = 16 * arctan (1 / 5) - 4 * arctan (1 / 239)"
    using machin by simp
  with a b show ?thesis by simp
qed

lemma meters_per_degree: "111190 < R_EARTH * pi / 180" "R_EARTH * pi / 180 < 111200"
  using pi_lower pi_upper by (simp_all add: R_EARTH_def)

lemma displaceCoordinate_value:
  fixes lat lon :: real
  assumes "cos (lat * pi / 180) \<noteq> 0"
  shows "displaceCoordinate lat lon dx dy =
           Inr (lat + dy / (R_EARTH * pi / 180),
                lon + dx / (R_EARTH * pi / 180 * cos (lat * pi / 180)))"
proof -
  have r: "R_EARTH * cos (lat * pi / 180) \<noteq> 0"
    using assms by (simp add: R_EARTH_def)
  have "(dy / R_EARTH) * (180 / pi) = dy / (R_EARTH * pi / 180)"
    by simp
  moreover have "dx / (R_EARTH * cos (lat * pi / 180)) * (180 / pi)
                   = dx / (R_EARTH * pi / 180 * cos (lat * pi / 180))"
    by simp
  ultimately show ?thesis
    using r unfolding displaceCoordinate_def js_div_def Let_def by simp
qed

lemma sample_gps: "gpsVector sampleHistory = Some (111.32, 0)"
  by (simp add: gpsVector_def sampleHistory_def Let_def)

text \<open>
  Claim C4, as amended. \<^verbatim>\<open>displaceCoordinate\<close> converts metres to degrees with a local
  approximation of the same form as the ground-track computation (a constant number of
  metres for a degree of latitude, and the same number scaled by the cosine of the latitude
  for a degree of longitude), but its constant is \<open>R_EARTH * pi / 180\<close>, between 111190 and
  111200 metres, where the ground-track computation uses 111320.
\<close>

theorem displaceCoordinate_meters_per_degree:
  fixes lat lon :: real
  assumes "cos (lat * pi / 180) \<noteq> 0"
  shows "displaceCoordinate lat lon dx dy =
           Inr (lat + dy / (R_EARTH * pi / 180),
                lon + dx / (R_EARTH * pi / 180 * cos (lat * pi / 180)))
         \<and> 111190 < R_EARTH * pi / 180 \<and> R_EARTH * pi / 180 < 111200
         \<and> (\<forall>vN_gps vE_gps. gpsVector history = Some (vN_gps, vE_gps) \<longrightarrow>
              vN_gps = ((latitude (history ! (length history - 1))
                           - latitude (history ! (length history - 3))) * 111320)
                       / ((timeElapsed (history ! (length history - 1))
                             - timeElapsed (history ! (length history - 3))) / 1000)
              \<and> vE_gps = ((longitude (history ! (length history - 1))
                             - longitude (history ! (length history - 3)))
                            * (111320 * cos (latitude (history ! (length history - 1)) * pi / 180)))
                         / ((timeElapsed (history ! (length history - 1))
                               - timeElapsed (history ! (length history - 3))) / 1000))"
proof (intro conjI allI impI)
  show "displaceCoordinate lat lon dx dy =
           Inr (lat + dy / (R_EARTH * pi / 180),
                lon + dx / (R_EARTH * pi / 180 * cos (lat * pi / 180)))"
    using assms by (rule displaceCoordinate_value)
next
  show "111190 < R_EARTH * pi / 180" "R_EARTH * pi / 180 < 111200"
    by (rule meters_per_degree)+
next
  fix vN_gps vE_gps
  assume g: "gpsVector history = Some (vN_gps, vE_gps)"
  then show "vN_gps = ((latitude (history ! (length history - 1))
                           - latitude (history ! (length history - 3))) * 111320)
                       / ((timeElapsed (history ! (length history - 1))
                             - timeElapsed (history ! (length history - 3))) / 1000)"
    by (simp add: gpsVector_def Let_def split: if_splits)
  from g show "vE_gps = ((longitude (history ! (length history - 1))
                             - longitude (history ! (length history - 3)))
                            * (111320 * cos (latitude (history ! (length history - 1)) * pi / 180)))
                         / ((timeElapsed (history ! (length history - 1))
                               - timeElapsed (history ! (length history - 3))) / 1000)"
    by (simp add: gpsVector_def Let_def split: if_splits)
qed

theorem displaceCoordinate_meters_per_degree_witness:
  "cos (0 * pi / 180) \<noteq> (0::real)
   \<and> displaceCoordinate 0 1 0 0 = Inr (0, 1)
   \<and> gpsVector sampleHistory = Some (111.32, 0)
   \<and> (111.32::real) = ((0.001 - 0) * 111320) / ((1000 - 0) / 1000)"
proof -
  have c: "cos (0 * pi / 180) \<noteq> (0::real)" by simp
  note m = displaceCoordinate_meters_per_degree [OF c, of 1 0 0 sampleHistory]
  from m have "displaceCoordinate 0 1 0 0 =
                 Inr (0 + 0 / (R_EARTH * pi / 180),
                      1 + 0 / (R_EARTH * pi / 180 * cos (0 * pi / 180)))"
    by blast
  then have d: "displaceCoordinate 0 1 0 0 = Inr (0, 1)"
    by simp
  from m sample_gps
  have "(111.32::real) = ((latitude (sampleHistory ! (length sampleHistory - 1))
                           - latitude (sampleHistory ! (length sampleHistory - 3))) * 111320)
                       / ((timeElapsed (sampleHistory ! (length sampleHistory - 1))
                             - timeElapsed (sampleHistory ! (length sampleHistory - 3))) / 1000)"
    by blast
  then have "(111.32::real) = ((0.001 - 0) * 111320) / ((1000 - 0) / 1000)"
    by (simp add: sampleHistory_def)
  with c d sample_gps show ?thesis
    by blast
qed

text \<open>
  Claim C4, as stated, fails: the ground-track computation takes a thousandth of a degree
  of latitude for 111.32 m (here travelled in one second), and \<^verbatim>\<open>displaceCoordinate\<close>
  moves a point by 111.32 m north to a latitude that is not a thousandth of a degree away.
\<close>

theorem conversions_differ:
  "gpsVector sampleHistory = Some (111.32, 0)
   \<and> displaceCoordinate 0 1 0 111.32 \<noteq> Inr (0.001, 1)"
proof -
  have "displaceCoordinate 0 1 0 111.32 = Inr (0 + 111.32 / (R_EARTH * pi / 180),
          1 + 0 / (R_EARTH * pi / 180 * cos (0 * pi / 180)))"
    by (rule displaceCoordinate_value) simp
  moreover have "111.32 / (R_EARTH * pi / 180) \<noteq> 0.001"
    using meters_per_degree by (simp add: field_simps)
  ultimately show ?thesis
    using sample_gps by simp
qed

section \<open>Velocity fusion: results\<close>

text \<open>
  Claim C6. The ground-track vector exists exactly when the history has at least three
  samples and the gap between the last sample and the one two indices before it lies
  strictly between 0.1 s and 3.0 s. Without it the fused velocity is the heading vector,
  whatever the policy. In the mode \<^verbatim>\<open>auto\<close> the weight of the ground-track vector is 0.3
  above a horizontal speed of 5 m/s and 0.8 otherwise.
\<close>

theorem velocity_fusion:
  "(gpsVector history \<noteq> None \<longleftrightarrow>
      (length history \<ge> 3
       \<and> 0.1 < (timeElapsed (history ! (length history - 1))
                 - timeElapsed (history ! (length history - 3))) / 1000
       \<and> (timeElapsed (history ! (length history - 1))
            - timeElapsed (history ! (length history - 3))) / 1000 < 3.0))
   \<and> (gpsVector history = None \<longrightarrow>
        fuseVelocity history hSpeedCurrent headingCurrent landingSettings
          = (hSpeedCurrent * cos (headingCurrent * (pi / 180)),
             hSpeedCurrent * sin (headingCurrent * (pi / 180))))
   \<and> (headingSource landingSettings = Auto \<longrightarrow>
        fusionWeight landingSettings hSpeedCurrent = (if hSpeedCurrent > 5 then 0.3 else 0.8)
        \<and> (\<forall>vN_gps vE_gps. gpsVector history = Some (vN_gps, vE_gps) \<longrightarrow>
             fuseVelocity history hSpeedCurrent headingCurrent landingSettings
               = (vN_gps * fusionWeight landingSettings hSpeedCurrent
                    + hSpeedCurrent * cos (headingCurrent * (pi / 180))
                        * (1 - fusionWeight landingSettings hSpeedCurrent),
                  vE_gps * fusionWeight landingSettings hSpeedCurrent
                    + hSpeedCurrent * sin (headingCurrent * (pi / 180))
                        * (1 - fusionWeight landingSettings hSpeedCurrent))))"
proof (intro conjI impI allI)
  show "gpsVector history \<noteq> None \<longleftrightarrow>
      (length history \<ge> 3
       \<and> 0.1 < (timeElapsed (history ! (length history - 1))
                 - timeElapsed (history ! (length history - 3))) / 1000
       \<and> (timeElapsed (history ! (length history - 1))
            - timeElapsed (history ! (length history - 3))) / 1000 < 3.0)"
    by (simp add: gpsVector_def Let_def)
next
  assume "gpsVector history = None"
  then show "fuseVelocity history hSpeedCurrent headingCurrent landingSettings
          = (hSpeedCurrent * cos (headingCurrent * (pi / 180)),
             hSpeedCurrent * sin (headingCurrent * (pi / 180)))"
    by (simp add: fuseVelocity_def imuVector_def Let_def)
next
  assume "headingSource landingSettings = Auto"
  then show "fusionWeight landingSettings hSpeedCurrent = (if hSpeedCurrent > 5 then 0.3 else 0.8)"
    by (simp add: fusionWeight_def Let_def)
next
  fix vN_gps vE_gps
  assume "headingSource landingSettings = Auto" "gpsVector history = Some (vN_gps, vE_gps)"
  then show "fuseVelocity history hSpeedCurrent headingCurrent landingSettings
               = (vN_gps * fusionWeight landingSettings hSpeedCurrent
                    + hSpeedCurrent * cos (headingCurrent * (pi / 180))
                        * (1 - fusionWeight landingSettings hSpeedCurrent),
                  vE_gps * fusionWeight landingSettings hSpeedCurrent
                    + hSpeedCurrent * sin (headingCurrent * (pi / 180))
                        * (1 - fusionWeight landingSettings hSpeedCurrent))"
    by (simp add: fuseVelocity_def imuVector_def Let_def)
qed

theorem velocity_fusion_witness:
  "gpsVector [] = None
   \<and> fuseVelocity [] 3 90 \<lparr>headingSource = Gps, gpsWeight = Some 1\<rparr> = (0, 3)
   \<and> headingSource autoPolicy = Auto
   \<and> gpsVector sampleHistory = Some (111.32, 0)
   \<and> fusionWeight autoPolicy 10 = 0.3
   \<and> fusionWeight autoPolicy 2 = 0.8
   \<and> fuseVelocity sampleHistory 10 90 autoPolicy = (33.396, 7)"
proof -
  have n: "gpsVector [] = None"
    by (simp add: gpsVector_def)
  have a: "headingSource autoPolicy = Auto"
    by (simp add: autoPolicy_def)
  have "fuseVelocity [] 3 90 \<lparr>headingSource = Gps, gpsWeight = Some 1\<rparr> = (0, 3)"
    using velocity_fusion [where history = "[]" and hSpeedCurrent = 3 and headingCurrent = 90
                             and landingSettings = "\<lparr>headingSource = Gps, gpsWeight = Some 1\<rparr>"] n
    by simp
  moreover have "fusionWeight autoPolicy 10 = 0.3"
    using velocity_fusion [where history = sampleHistory and hSpeedCurrent = 10
                             and headingCurrent = 90 and landingSettings = autoPolicy] a by simp
  moreover have "fusionWeight autoPolicy 2 = 0.8"
    using velocity_fusion [where history = sampleHistory and hSpeedCurrent = 2
                             and headingCurrent = 90 and landingSettings = autoPolicy] a by simp
  moreover have "fuseVelocity sampleHistory 10 90 autoPolicy = (33.396, 7)"
  proof -
    note vf = velocity_fusion [where history = sampleHistory and hSpeedCurrent = 10
                             and headingCurrent = 90 and landingSettings = autoPolicy]
    from vf a have w: "fusionWeight autoPolicy 10 = 0.3"
      by simp
    from vf a sample_gps
    have "fuseVelocity sampleHistory 10 90 autoPolicy
            = (111.32 * fusionWeight autoPolicy 10
                 + 10 * cos (90 * (pi / 180)) * (1 - fusionWeight autoPolicy 10),
               0 * fusionWeight autoPolicy 10
                 + 10 * sin (90 * (pi / 180)) * (1 - fusionWeight autoPolicy 10))"
      by blast
    then show ?thesis
      unfolding w by simp
  qed
  ultimately show ?thesis
    using n a sample_gps by simp
qed

section \<open>The clock: results\<close>

text \<open>The rounding: its error, its sign and its value in a known binade.\<close>

lemma rne_floor: "\<lfloor>y\<rfloor> \<le> rne y" "rne y \<le> \<lfloor>y\<rfloor> + 1"
  by (simp_all add: rne_def Let_def)




lemma powr_powi:
  "2 powr real_of_int e = (2::real) powi e" "2 powr real_of_int (e + 1) = (2::real) powi (e + 1)"
  by (rule powr_real_of_int', simp, simp)+

lemma floor_log2_iff:
  assumes "0 < x"
  shows "\<lfloor>log 2 x\<rfloor> = e \<longleftrightarrow> 2 powi e \<le> x \<and> x < 2 powi (e + 1)"
  using floor_log_eq_powr_iff [OF assms, of 2 e] unfolding powr_powi by simp

lemma floor_log2:
  assumes "0 < x" "2 powi e \<le> x" "x < 2 powi (e + 1)"
  shows "\<lfloor>log 2 x\<rfloor> = e"
  using assms floor_log2_iff by blast

lemma round64_eval:
  assumes "0 < x" "2 powi e \<le> x" "x < 2 powi (e + 1)"
  shows "round64 x = of_int (rne (x / 2 powi (e - 52))) * 2 powi (e - 52)"
  using assms floor_log2 [OF assms] by (simp add: round64_def Let_def)

lemma binade_exists:
  assumes "0 < x"
  shows "2 powi \<lfloor>log 2 x\<rfloor> \<le> x \<and> x < 2 powi (\<lfloor>log 2 x\<rfloor> + 1)"
  using floor_log2_iff [OF assms, of "\<lfloor>log 2 x\<rfloor>"] by simp


lemma round64_pos:
  assumes "0 < x"
  shows "0 < round64 x"
proof -
  define e where "e = \<lfloor>log 2 x\<rfloor>"
  define u :: real where "u = 2 powi (e - 52)"
  have b: "2 powi e \<le> x" "x < 2 powi (e + 1)"
    using binade_exists [OF assms(1)] by (simp_all add: e_def)
  have u: "0 < u" by (simp add: u_def)
  have r: "round64 x = of_int (rne (x / u)) * u"
    using round64_eval [OF assms(1) b] by (simp add: u_def)
  have "2 powi e / u \<le> x / u"
    using b(1) u by (simp add: divide_right_mono)
  moreover have "2 powi e / u = (2::real) ^ 52"
    by (simp add: u_def power_int_diff)
  ultimately have "(2::real) ^ 52 \<le> x / u" by simp
  then have "(4503599627370496::int) \<le> \<lfloor>x / u\<rfloor>"
    by (subst le_floor_iff) simp
  with rne_floor(1) [of "x / u"] have "0 < rne (x / u)"
    by linarith
  with u show ?thesis by (simp add: r)
qed

lemma round64_dt: "round64 dt = 3602879701896397 / 18014398509481984"
proof -
  have "round64 dt = of_int (rne (dt / 2 powi (- 3 - 52))) * 2 powi (- 3 - 52)"
    by (rule round64_eval) (simp_all add: dt_def power_int_minus)
  also have "dt / 2 powi (- 3 - 52) = of_int 7205759403792793 + 3 / 5"
    by (simp add: dt_def power_int_minus)
  also have "rne (of_int 7205759403792793 + 3 / 5) = 7205759403792794"
    by (simp add: rne_def Let_def)
  finally show ?thesis
    by (simp add: power_int_minus)
qed

text \<open>The first ten values of the clock.\<close>

lemma tAfter_step:
  assumes "tAfter n = a" and "m = Suc n"
    and "0 < a + 3602879701896397 / 18014398509481984"
    and "2 powi e \<le> a + 3602879701896397 / 18014398509481984"
    and "a + 3602879701896397 / 18014398509481984 < 2 powi (e + 1)"
    and "rne ((a + 3602879701896397 / 18014398509481984) / 2 powi (e - 52)) = k"
  shows "tAfter m = of_int k * 2 powi (e - 52)"
  using round64_eval [OF assms(3-5)] assms(1,2,6) by (simp add: round64_dt)


text \<open>
  Bounds of the clock. Below 2048 a step is off by at most \<open>2 ^ - 43\<close>, below 4096 by at
  most \<open>2 ^ - 42\<close>; from 2048 on every step adds the same multiple of \<open>2 ^ - 41\<close>, which
  is less than 0.2, so that the clock after 18000 steps is below 3600.
\<close>

declare tAfter.simps(2) [simp del]

lemma tAfter_Suc: "tAfter (Suc n) = round64 (tAfter n + 3602879701896397 / 18014398509481984)"
  by (simp add: round64_dt tAfter.simps(2))

lemma tAfter_nonneg: "0 \<le> tAfter n"
proof (cases n)
  case 0
  then show ?thesis by simp
next
  case (Suc m)
  have "0 \<le> tAfter m"
  proof (induction m)
    case 0
    show ?case by simp
  next
    case (Suc k)
    then have "0 < tAfter k + 3602879701896397 / 18014398509481984" by simp
    then have "0 < tAfter (Suc k)"
      unfolding tAfter_Suc by (rule round64_pos)
    then show ?case by simp
  qed
  then have "0 < tAfter m + 3602879701896397 / 18014398509481984" by simp
  then have "0 < tAfter (Suc m)"
    unfolding tAfter_Suc by (rule round64_pos)
  with Suc show ?thesis by simp
qed

lemma tAfter_pos: "0 < n \<Longrightarrow> 0 < tAfter n"
proof -
  assume "0 < n"
  then obtain m where m: "n = Suc m" by (cases n) simp_all
  have "0 < tAfter m + 3602879701896397 / 18014398509481984"
    using tAfter_nonneg [of m] by simp
  then have "0 < tAfter (Suc m)"
    unfolding tAfter_Suc by (rule round64_pos)
  with m show ?thesis by simp
qed













lemma round64_fifth: "round64 (1 / 5) = 3602879701896397 / 18014398509481984"
  using round64_dt by (simp add: dt_def)

lemma round64_dt_fixed:
  "round64 (3602879701896397 / 18014398509481984) = 3602879701896397 / 18014398509481984"
proof -
  have "tAfter (Suc 0) = of_int 7205759403792794 * 2 powi (- 3 - 52)"
    by (rule tAfter_step [OF tAfter.simps(1)]) (simp_all add: power_int_minus rne_def Let_def)
  then show ?thesis
    by (simp add: tAfter_Suc power_int_minus)
qed

section \<open>The simulation loop: invariants\<close>

lemma simStep_integrate:
  "simStep env s = Inr s' \<Longrightarrow> \<exists>a. integrate env s a = Inr s'"
  by (auto simp add: simStep_def split: sum.splits prod.splits)

lemma integrate_t: "integrate env s a = Inr s' \<Longrightarrow> t s' = round64 (t s + round64 dt)"
  by (auto simp add: integrate_def Let_def split: sum.splits prod.splits)


lemma simLoop_stop:
  "\<not> (currentAlt s > env_groundAlt env \<and> steps s < MAX_STEPS) \<Longrightarrow> simLoop env s = Inr s"
  by (subst simLoop.simps) auto

lemma simLoop_step:
  "currentAlt s > env_groundAlt env \<Longrightarrow> steps s < MAX_STEPS \<Longrightarrow> simStep env s = Inr s'
     \<Longrightarrow> simLoop env s = simLoop env s'"
  by (subst simLoop.simps) auto

lemma loopState_after:
  assumes "currentAlt s > env_groundAlt env" "steps s < MAX_STEPS" "simStep env s = Inr s1"
    and "loopState env s1 u"
  shows "loopState env s u"
  using assms(4)
proof (induction rule: loopState.induct)
  case start
  show ?case using assms(1-3) by (blast intro: loopState.intros)
next
  case (step u u')
  then show ?case by (blast intro: loopState.step)
qed


text \<open>A loop that ends in \<open>Inl e\<close> has reached a state whose step is \<open>Inl e\<close>.\<close>

lemma simLoop_not_finite:
  "simLoop env s = Inl e \<Longrightarrow>
     \<exists>u. loopState env s u \<and> currentAlt u > env_groundAlt env \<and> steps u < MAX_STEPS
          \<and> simStep env u = Inl e"
proof (induction env s rule: simLoop.induct)
  case (1 env s)
  have c: "currentAlt s > env_groundAlt env \<and> steps s < MAX_STEPS"
  proof (rule ccontr)
    assume "\<not> (currentAlt s > env_groundAlt env \<and> steps s < MAX_STEPS)"
    then have "simLoop env s = Inr s" by (rule simLoop_stop)
    with "1.prems" show False by simp
  qed
  show ?case
  proof (cases "simStep env s")
    case (Inl e')
    with c "1.prems" have "e' = e"
      by (subst (asm) simLoop.simps) simp
    with Inl c show ?thesis
      by (blast intro: loopState.start)
  next
    case (Inr s1)
    with c "1.prems" have "simLoop env s1 = Inl e"
      by (subst (asm) simLoop.simps) simp
    with "1.IH" c Inr obtain u where u: "loopState env s1 u"
      "currentAlt u > env_groundAlt env" "steps u < MAX_STEPS" "simStep env u = Inl e"
      by blast
    have "loopState env s u"
      using c Inr u(1) by (blast intro: loopState_after)
    with u show ?thesis by blast
  qed
qed

text \<open>The loop passes through each of these states.\<close>

lemma loopState_simLoop: "loopState env s0 s \<Longrightarrow> simLoop env s0 = simLoop env s"
  by (induction rule: loopState.induct) (simp_all add: simLoop_step)

lemma simStep_t: "simStep env s = Inr s' \<Longrightarrow> t s' = round64 (t s + round64 dt)"
  using simStep_integrate integrate_t by blast



lemma loopState_time:
  "loopState env s0 s \<Longrightarrow> t s0 = tAfter (steps s0) \<Longrightarrow> t s = tAfter (steps s)"
proof (induction rule: loopState.induct)
  case start
  then show ?case by simp
next
  case (step u u')
  have "steps u' = Suc (steps u)" "t u' = round64 (t u + round64 dt)"
    using step.hyps(4) by (simp_all add: simStep_steps simStep_t)
  with step show ?case by (simp add: tAfter.simps(2))
qed

lemma loopState_steps_mono: "loopState env s0 s \<Longrightarrow> steps s0 \<le> steps s"
  by (induction rule: loopState.induct) (auto dest: simStep_steps)

lemma loopState_first: "loopState env s0 s \<Longrightarrow> steps s = steps s0 \<Longrightarrow> s = s0"
proof (induction rule: loopState.induct)
  case start
  show ?case by simp
next
  case (step u u')
  then have "steps u' = Suc (steps u)" "steps s0 \<le> steps u"
    by (auto dest: simStep_steps loopState_steps_mono)
  with step.prems show ?case by simp
qed

lemma initialState_simps [simp]:
  fixes lat lon alt :: real
  shows "t (initialState lat lon alt vN0 vE0 vS) = 0"
    "steps (initialState lat lon alt vN0 vE0 vS) = 0"
    "currentAlt (initialState lat lon alt vN0 vE0 vS) = alt"
    "currentLat (initialState lat lon alt vN0 vE0 vS) = lat"
    "currentLon (initialState lat lon alt vN0 vE0 vS) = lon"
    "vU (initialState lat lon alt vN0 vE0 vS) = vS"
    "vN (initialState lat lon alt vN0 vE0 vS) = vN0"
    "vE (initialState lat lon alt vN0 vE0 vS) = vE0"
    "SimState.path (initialState lat lon alt vN0 vE0 vS) = []"
    "isAscending (initialState lat lon alt vN0 vE0 vS) = (vS > 0)"
  by (simp_all add: initialState_def)

lemma simEnv_simps [simp]:
  fixes alt :: real
  shows "env_alt (simEnv alt g cd ds ws) = alt"
    "env_groundAlt (simEnv alt g cd ds ws) = g"
    "env_currentDensity (simEnv alt g cd ds ws) = cd"
    "env_descentSettings (simEnv alt g cd ds ws) = ds"
    "env_windSettings (simEnv alt g cd ds ws) = ws"
  by (simp_all add: simEnv_def)

section \<open>The predictor: results\<close>

lemma predictLanding_unfold:
  fixes lat lon alt :: real
  assumes "\<not> alt < 5" and "\<not> (\<bar>lat\<bar> < 0.0001 \<and> \<bar>lon\<bar> < 0.0001)"
  shows "predictLanding lat lon alt vSpeedCurrent hSpeedCurrent headingCurrent
             descentSettings windSettings landingSettings groundAlt currentDensity history
       = (case simLoop (simEnv alt groundAlt currentDensity descentSettings windSettings)
               (initialState lat lon alt
                  (fst (fuseVelocity history hSpeedCurrent headingCurrent landingSettings))
                  (snd (fuseVelocity history hSpeedCurrent headingCurrent landingSettings))
                  vSpeedCurrent) of
            Inl e \<Rightarrow> Inl e
          | Inr s \<Rightarrow>
              Inr (Some \<lparr>LandingPrediction.lat = currentLat s,
                         lon = currentLon s,
                         timeToImpact = t s,
                         confidenceRadius = 15 + (alt * 0.05) + (t s * 0.5),
                         path =
                           (if length (SimState.path s) > 0
                               \<and> PathPoint.alt (SimState.path s ! (length (SimState.path s) - 1))
                                   > groundAlt
                            then SimState.path s
                                   @ [\<lparr>PathPoint.lat = currentLat s, lon = currentLon s,
                                        alt = groundAlt\<rparr>]
                            else SimState.path s)\<rparr>))"
  using assms unfolding predictLanding_def Let_def
  by (auto simp add: case_prod_beta)


text \<open>A run of one step: a descent in the vacuum above 40000 m, one metre above the ground.\<close>

lemma sample_fuse: "fuseVelocity [] 0 0 autoPolicy = (0, 0)"
  by (simp add: fuseVelocity_def imuVector_def gpsVector_def)

lemma sample_density: "stepDensity (simEnv 50000 49999 rho0 scenarioDescent calmWind)
                   (initialState 0 1 50000 0 0 (- 10)) = Inr 0"
  by (simp add: stepDensity_def getAirDensity_def)

lemma sample_relative: "relativeVelocity (simEnv 50000 49999 rho0 scenarioDescent calmWind)
                   (initialState 0 1 50000 0 0 (- 10)) = Inr (0, 0, - 10)"
  by (simp add: relativeVelocity_def getWindAtAltitude_def calmWind_def windVelocity_def js_rem_def)

lemma vacuum_acceleration: "acceleration 1 (dragForce 0 cd area rel) = Inr (0, 0, - G)"
  by (simp add: acceleration_def dragForce_def js_div_def split: prod.splits)

lemma sample_displace: "displaceCoordinate 0 1 0 0 = Inr (0, 1)"
  by (simp add: displaceCoordinate_def js_div_def R_EARTH_def)

lemma sample_parameters: "phaseParameters scenarioDescent False = (1, 0.5, 1.5)"
  by (simp add: phaseParameters_def scenarioDescent_def)

lemma sample_step:
  "simStep (simEnv 50000 49999 rho0 scenarioDescent calmWind)
     (initialState 0 1 50000 0 0 (- 10)) = Inr sampleLanded"
  by (simp add: simStep_def sample_density sample_relative sample_parameters
        vacuum_acceleration integrate_def dt_def G_def sample_displace sampleLanded_def
        round64_fifth round64_dt_fixed)

lemma sample_reached:
  "loopState (simEnv 50000 49999 rho0 scenarioDescent calmWind)
     (initialState 0 1 50000 0 0 (- 10)) sampleLanded"
proof -
  have "loopState (simEnv 50000 49999 rho0 scenarioDescent calmWind)
          (initialState 0 1 50000 0 0 (- 10)) (initialState 0 1 50000 0 0 (- 10))"
    by (rule loopState.start)
  then show ?thesis
    by (rule loopState.step [OF _ _ _ sample_step]) (simp_all add: MAX_STEPS_def)
qed















text \<open>
  Claim C10. When the inputs pass the sanity checks and the altitude is at or below the
  ground altitude, the result is a prediction with an empty path, a time to impact of 0,
  the input latitude and longitude, and the confidence radius \<open>15 + 0.05 * alt\<close>.
\<close>

theorem predictLanding_on_ground:
  fixes lat lon alt :: real
  assumes "5 \<le> alt" and "\<not> (\<bar>lat\<bar> < 0.0001 \<and> \<bar>lon\<bar> < 0.0001)" and "alt \<le> groundAlt"
  shows "predictLanding lat lon alt vSpeedCurrent hSpeedCurrent headingCurrent
           descentSettings windSettings landingSettings groundAlt currentDensity history
         = Inr (Some \<lparr>LandingPrediction.lat = lat, lon = lon, timeToImpact = 0,
                       confidenceRadius = 15 + 0.05 * alt, path = []\<rparr>)"
proof -
  have "\<not> alt < 5" using assms(1) by simp
  from this assms(2) show ?thesis
    using assms(3) by (subst predictLanding_unfold) (simp_all add: simLoop_stop)
qed

theorem predictLanding_on_ground_witness:
  "(5::real) \<le> 100 \<and> \<not> (\<bar>45::real\<bar> < 0.0001 \<and> \<bar>7::real\<bar> < 0.0001) \<and> (100::real) \<le> 120
   \<and> predictLanding 45 7 100 (- 5) 3 90 scenarioDescent calmWind autoPolicy 120 1.2 []
       = Inr (Some \<lparr>LandingPrediction.lat = 45, lon = 7, timeToImpact = 0,
                     confidenceRadius = 15 + 0.05 * 100, path = []\<rparr>)"
proof -
  have a: "(5::real) \<le> 100" and b: "\<not> (\<bar>45::real\<bar> < 0.0001 \<and> \<bar>7::real\<bar> < 0.0001)"
    and c: "(100::real) \<le> 120"
    by simp_all
  from a b c predictLanding_on_ground [OF a b c] show ?thesis
    by (intro conjI) blast+
qed

section \<open>The density of a step\<close>

lemma loopState_time_pos:
  assumes "loopState env s0 s" "t s0 = 0" "steps s0 = 0"
  shows "t s = 0 \<longleftrightarrow> steps s = 0"
proof -
  have ts: "t s = tAfter (steps s)"
    using loopState_time [OF assms(1)] assms(2,3) by simp
  show ?thesis
  proof (cases "steps s = 0")
    case True
    with ts show ?thesis by simp
  next
    case False
    then have "0 < tAfter (steps s)"
      by (intro tAfter_pos) simp
    with ts False show ?thesis by simp
  qed
qed

text \<open>
  Claim C7. In the run of \<^verbatim>\<open>predictLanding\<close>, the reference density handed to the
  atmosphere model is the live density \<^verbatim>\<open>currentDensity\<close> in the first step only (with the
  initial altitude as reference altitude, as in every step); in every later step it is 0,
  and the density of the step is the one of the standard atmosphere without calibration.
  This is the density that the loop body computes with: a step is the drag, the
  acceleration and the integration for the value of \<^verbatim>\<open>getAirDensity\<close> at the current
  altitude, at that reference density and at the initial altitude.
\<close>

theorem reference_density_first_step_only:
  fixes lat lon alt :: real
  assumes "loopState (simEnv alt groundAlt currentDensity descentSettings windSettings)
             (initialState lat lon alt vN0 vE0 vSpeedCurrent) s"
  shows "stepRefDensity (simEnv alt groundAlt currentDensity descentSettings windSettings) s
           = (if steps s = 0 then currentDensity else 0)
         \<and> stepDensity (simEnv alt groundAlt currentDensity descentSettings windSettings) s
           = (if steps s = 0 then getAirDensity alt currentDensity alt
              else if currentAlt s > 40000 then Inr 0
              else isaDensity (currentAlt s))
         \<and> simStep (simEnv alt groundAlt currentDensity descentSettings windSettings) s
           = (case phaseParameters descentSettings (isAscending s) of (m, area, cd) \<Rightarrow>
                (case getAirDensity (currentAlt s) (if steps s = 0 then currentDensity else 0) alt
                 of
                   Inl e \<Rightarrow> Inl e
                 | Inr rho \<Rightarrow>
                     (case relativeVelocity
                             (simEnv alt groundAlt currentDensity descentSettings windSettings) s
                      of
                        Inl e \<Rightarrow> Inl e
                      | Inr rel \<Rightarrow>
                          (case acceleration m (dragForce rho cd area rel) of
                             Inl e \<Rightarrow> Inl e
                           | Inr a \<Rightarrow>
                               integrate
                                 (simEnv alt groundAlt currentDensity descentSettings
                                    windSettings) s a))))"
proof -
  define env where "env = simEnv alt groundAlt currentDensity descentSettings windSettings"
  define s0 where "s0 = initialState lat lon alt vN0 vE0 vSpeedCurrent"
  have ls: "loopState env s0 s"
    using assms by (simp add: env_def s0_def)
  have z: "t s0 = 0" "steps s0 = 0" "currentAlt s0 = alt"
    by (simp_all add: s0_def)
  have tz: "t s = 0 \<longleftrightarrow> steps s = 0"
    using loopState_time_pos [OF ls z(1,2)] .
  have first: "s = s0" if "steps s = 0"
    using loopState_first [OF ls] that z(2) by simp
  have e: "env_currentDensity env = currentDensity" "env_alt env = alt"
    "env_descentSettings env = descentSettings"
    by (simp_all add: env_def)
  have r: "stepRefDensity env s = (if steps s = 0 then currentDensity else 0)"
    by (simp add: stepRefDensity_def tz e)
  have d: "stepDensity env s
           = (if steps s = 0 then getAirDensity alt currentDensity alt
              else if currentAlt s > 40000 then Inr 0
              else isaDensity (currentAlt s))"
  proof (cases "steps s = 0")
    case True
    then have "s = s0" by (rule first)
    with True z(3) r show ?thesis
      by (simp add: stepDensity_def e)
  next
    case False
    then show ?thesis
      by (simp add: stepDensity_def r e getAirDensity_uncalibrated)
  qed
  have c: "stepDensity env s
             = getAirDensity (currentAlt s) (if steps s = 0 then currentDensity else 0) alt"
    unfolding stepDensity_def r e ..
  have "simStep env s
           = (case phaseParameters descentSettings (isAscending s) of (m, area, cd) \<Rightarrow>
                (case getAirDensity (currentAlt s) (if steps s = 0 then currentDensity else 0) alt
                 of
                   Inl e \<Rightarrow> Inl e
                 | Inr rho \<Rightarrow>
                     (case relativeVelocity env s of
                        Inl e \<Rightarrow> Inl e
                      | Inr rel \<Rightarrow>
                          (case acceleration m (dragForce rho cd area rel) of
                             Inl e \<Rightarrow> Inl e
                           | Inr a \<Rightarrow> integrate env s a))))"
    unfolding simStep_def c e ..
  with r d show ?thesis
    unfolding env_def by simp
qed

theorem reference_density_first_step_only_witness:
  "loopState (simEnv 50000 49999 1.2 scenarioDescent calmWind)
     (initialState 0 1 50000 0 0 (- 10)) (initialState 0 1 50000 0 0 (- 10))
   \<and> stepRefDensity (simEnv 50000 49999 1.2 scenarioDescent calmWind)
         (initialState 0 1 50000 0 0 (- 10)) = 1.2
   \<and> loopState (simEnv 50000 49999 1.2 scenarioDescent calmWind)
         (initialState 0 1 50000 0 0 (- 10)) sampleLanded
   \<and> stepRefDensity (simEnv 50000 49999 1.2 scenarioDescent calmWind) sampleLanded = 0
   \<and> stepDensity (simEnv 50000 49999 1.2 scenarioDescent calmWind) sampleLanded = Inr 0"
proof -
  have l0: "loopState (simEnv 50000 49999 1.2 scenarioDescent calmWind)
     (initialState 0 1 50000 0 0 (- 10)) (initialState 0 1 50000 0 0 (- 10))"
    by (rule loopState.start)
  have l1: "loopState (simEnv 50000 49999 1.2 scenarioDescent calmWind)
     (initialState 0 1 50000 0 0 (- 10)) sampleLanded"
    by (rule sample_reached)
  have "stepRefDensity (simEnv 50000 49999 1.2 scenarioDescent calmWind)
         (initialState 0 1 50000 0 0 (- 10)) = 1.2"
    using reference_density_first_step_only [OF l0, THEN conjunct1] by simp
  moreover
  have "stepRefDensity (simEnv 50000 49999 1.2 scenarioDescent calmWind) sampleLanded = 0"
    using reference_density_first_step_only [OF l1, THEN conjunct1]
    by (simp add: sampleLanded_def)
  moreover
  have "stepDensity (simEnv 50000 49999 1.2 scenarioDescent calmWind) sampleLanded = Inr 0"
    using reference_density_first_step_only [OF l1, THEN conjunct2, THEN conjunct1]
    by (simp add: sampleLanded_def)
  ultimately show ?thesis
    using l0 l1 by blast
qed

section \<open>Steps at rest in the air\<close>

text \<open>The relative velocity of a step is always a triple of finite numbers.\<close>

lemma relativeVelocity_defined: "\<exists>rel. relativeVelocity env s = Inr rel"
proof -
  obtain w where "getWindAtAltitude (currentAlt s) (env_windSettings env) = Inr w"
    using getWindAtAltitude_defined by blast
  then show ?thesis
    by (simp add: relativeVelocity_def windVelocity_def js_rem_def Let_def)
qed

lemma dragForce_zero: "dragForce rho cd area (0, 0, 0) = (0, 0, 0)"
  by (simp add: dragForce_def)

lemma acceleration_zero: "m \<noteq> 0 \<Longrightarrow> acceleration m (0, 0, 0) = Inr (0, 0, - G)"
  by (simp add: acceleration_def js_div_def)

lemma acceleration_defined: "acceleration m f = Inr a \<Longrightarrow> m \<noteq> 0"
  by (auto simp add: acceleration_def js_div_def split: prod.splits if_splits)

lemma simStep_mass:
  assumes "simStep env u = Inr s"
  shows "fst (phaseParameters (env_descentSettings env) (isAscending u)) \<noteq> 0"
  using assms
  by (auto simp add: simStep_def split: prod.splits sum.splits dest: acceleration_defined)

lemma simStep_isAscending:
  "simStep env u = Inr s \<Longrightarrow> isAscending s \<Longrightarrow> isAscending u"
  by (auto simp add: simStep_def integrate_def Let_def split: prod.splits sum.splits if_splits)

lemma relativeVelocity_up:
  "relativeVelocity env s = Inr (relN, relE, relU) \<Longrightarrow> relU = vU s"
  by (auto simp add: relativeVelocity_def windVelocity_def Let_def split: sum.splits prod.splits)

lemma phase_mass_nonzero:
  assumes ls: "loopState env s0 s"
    and init: "isAscending s0 \<longrightarrow> 0 < vU s0"
    and rel: "relativeVelocity env s = Inr (0, 0, 0)"
  shows "fst (phaseParameters (env_descentSettings env) (isAscending s)) \<noteq> 0"
proof (cases "isAscending s")
  case False
  then show ?thesis by (simp add: phaseParameters_def)
next
  case True
  have v: "vU s = 0"
    using relativeVelocity_up [OF rel] by simp
  from ls show ?thesis
  proof (cases rule: loopState.cases)
    case start
    with True init v show ?thesis by simp
  next
    case (step u)
    then have "isAscending u"
      using True simStep_isAscending by blast
    with simStep_mass [OF step(4)] True show ?thesis by simp
  qed
qed

lemma displaceCoordinate_defined:
  fixes lat lon :: real
  assumes "cos (lat * pi / 180) \<noteq> 0"
  shows "\<exists>c. displaceCoordinate lat lon dx dy = Inr c"
  using assms by (simp add: displaceCoordinate_def js_div_def R_EARTH_def Let_def)

lemma integrate_velocity:
  assumes "cos (currentLat s * pi / 180) \<noteq> 0"
  shows "\<exists>s'. integrate env s (aN, aE, aU) = Inr s'
            \<and> vN s' = vN s + aN * dt \<and> vE s' = vE s + aE * dt \<and> vU s' = vU s + aU * dt"
proof -
  obtain c where "displaceCoordinate (currentLat s) (currentLon s)
                    ((vE s + aE * dt) * dt) ((vN s + aN * dt) * dt) = Inr c"
    using displaceCoordinate_defined [OF assms] by blast
  then show ?thesis
    by (cases c) (simp add: integrate_def Let_def)
qed

lemma stepDensity_defined:
  fixes lat lon alt :: real
  assumes "loopState (simEnv alt groundAlt currentDensity descentSettings windSettings)
             (initialState lat lon alt vN0 vE0 vSpeedCurrent) s"
  shows "\<exists>rho. stepDensity (simEnv alt groundAlt currentDensity descentSettings windSettings) s
                 = Inr rho \<and> 0 \<le> rho"
proof -
  define env where "env = simEnv alt groundAlt currentDensity descentSettings windSettings"
  define s0 where "s0 = initialState lat lon alt vN0 vE0 vSpeedCurrent"
  have ls: "loopState env s0 s"
    using assms by (simp add: env_def s0_def)
  have z: "t s0 = 0" "steps s0 = 0" "currentAlt s0 = alt"
    by (simp_all add: s0_def)
  have e: "env_currentDensity env = currentDensity" "env_alt env = alt"
    by (simp_all add: env_def)
  have "\<exists>rho. stepDensity env s = Inr rho \<and> 0 \<le> rho"
  proof (cases "steps s = 0")
    case True
    then have "s = s0" using loopState_first [OF ls] z(2) by simp
    then have "currentAlt s = alt" using z(3) by simp
    moreover have "40000 < alt \<or> stepRefDensity env s \<le> 0.1 \<or> alt * L_RATE < T_STD"
      using low_altitude_below [of alt] by blast
    ultimately show ?thesis
      unfolding stepDensity_def e using getAirDensity_defined by simp
  next
    case False
    then have "t s \<noteq> 0"
      using loopState_time_pos [OF ls z(1,2)] by simp
    then have "stepRefDensity env s = 0"
      by (simp add: stepRefDensity_def)
    then have "40000 < currentAlt s \<or> stepRefDensity env s \<le> 0.1
                 \<or> env_alt env * L_RATE < T_STD"
      by simp
    then show ?thesis
      unfolding stepDensity_def by (rule getAirDensity_defined)
  qed
  then show ?thesis by (simp add: env_def)
qed

text \<open>
  Claim C9. In every state that the loop of \<^verbatim>\<open>predictLanding\<close> reaches with a relative
  velocity of zero, the drag force is zero on all three axes, the acceleration is that of
  gravity alone, and the step computes finite numbers only. The loop body divides by the
  mass of the phase, which is not zero in such a state, and by \<open>R_EARTH * cos rLat\<close>; it
  never divides by the magnitude of the velocity. The hypothesis on the cosine excludes
  the poles of the exact model (in double precision no cosine of a finite latitude is
  exactly zero).
\<close>

theorem zero_relative_velocity_step:
  fixes lat lon alt :: real
  assumes "loopState (simEnv alt groundAlt currentDensity descentSettings windSettings)
             (initialState lat lon alt vN0 vE0 vSpeedCurrent) s"
    and "relativeVelocity (simEnv alt groundAlt currentDensity descentSettings windSettings) s
           = Inr (0, 0, 0)"
    and "cos (currentLat s * pi / 180) \<noteq> 0"
  shows "\<exists>rho m area cd s'.
           stepDensity (simEnv alt groundAlt currentDensity descentSettings windSettings) s = Inr rho
         \<and> phaseParameters descentSettings (isAscending s) = (m, area, cd)
         \<and> dragForce rho cd area (0, 0, 0) = (0, 0, 0)
         \<and> acceleration m (dragForce rho cd area (0, 0, 0)) = Inr (0, 0, - G)
         \<and> simStep (simEnv alt groundAlt currentDensity descentSettings windSettings) s = Inr s'
         \<and> vN s' = vN s \<and> vE s' = vE s \<and> vU s' = vU s - G * dt"
proof -
  define env where "env = simEnv alt groundAlt currentDensity descentSettings windSettings"
  define s0 where "s0 = initialState lat lon alt vN0 vE0 vSpeedCurrent"
  have ls: "loopState env s0 s" and rel: "relativeVelocity env s = Inr (0, 0, 0)"
    using assms by (simp_all add: env_def s0_def)
  obtain rho where rho: "stepDensity env s = Inr rho"
    using stepDensity_defined [OF assms(1)] unfolding env_def by blast
  obtain m area cd where pp: "phaseParameters descentSettings (isAscending s) = (m, area, cd)"
    by (cases "phaseParameters descentSettings (isAscending s)")
  have "isAscending s0 \<longrightarrow> 0 < vU s0"
    by (simp add: s0_def)
  from phase_mass_nonzero [OF ls this rel] pp have m: "m \<noteq> 0"
    by (simp add: env_def)
  have acc: "acceleration m (dragForce rho cd area (0, 0, 0)) = Inr (0, 0, - G)"
    using m by (simp add: dragForce_zero acceleration_zero)
  obtain s' where s': "integrate env s (0, 0, - G) = Inr s'"
    and v: "vN s' = vN s + 0 * dt" "vE s' = vE s + 0 * dt" "vU s' = vU s + (- G) * dt"
    using integrate_velocity [OF assms(3)] by blast
  have "simStep env s = Inr s'"
    using rho rel pp acc s' by (simp add: simStep_def env_def)
  with rho pp acc v show ?thesis
    unfolding env_def [symmetric] by (simp add: dragForce_zero)
qed

lemma rest_relative:
  "relativeVelocity (simEnv 50000 49999 1.2 scenarioDescent calmWind)
     (initialState 0 1 50000 0 0 0) = Inr (0, 0, 0)"
  by (simp add: relativeVelocity_def getWindAtAltitude_def calmWind_def windVelocity_def
        js_rem_def)

theorem zero_relative_velocity_step_witness:
  "loopState (simEnv 50000 49999 1.2 scenarioDescent calmWind)
     (initialState 0 1 50000 0 0 0) (initialState 0 1 50000 0 0 0)
   \<and> relativeVelocity (simEnv 50000 49999 1.2 scenarioDescent calmWind)
         (initialState 0 1 50000 0 0 0) = Inr (0, 0, 0)
   \<and> cos (currentLat (initialState 0 1 50000 0 0 0) * pi / 180) \<noteq> 0
   \<and> (\<exists>rho m area cd s'.
           stepDensity (simEnv 50000 49999 1.2 scenarioDescent calmWind)
             (initialState 0 1 50000 0 0 0) = Inr rho
         \<and> phaseParameters scenarioDescent (isAscending (initialState 0 1 50000 0 0 0))
             = (m, area, cd)
         \<and> dragForce rho cd area (0, 0, 0) = (0, 0, 0)
         \<and> acceleration m (dragForce rho cd area (0, 0, 0)) = Inr (0, 0, - G)
         \<and> simStep (simEnv 50000 49999 1.2 scenarioDescent calmWind)
             (initialState 0 1 50000 0 0 0) = Inr s'
         \<and> vN s' = vN (initialState 0 1 50000 0 0 0)
         \<and> vE s' = vE (initialState 0 1 50000 0 0 0)
         \<and> vU s' = vU (initialState 0 1 50000 0 0 0) - G * dt)"
proof -
  have l: "loopState (simEnv 50000 49999 1.2 scenarioDescent calmWind)
     (initialState 0 1 50000 0 0 0) (initialState 0 1 50000 0 0 0)"
    by (rule loopState.start)
  have c: "cos (currentLat (initialState 0 1 50000 0 0 0) * pi / 180) \<noteq> 0"
    by simp
  from l rest_relative c zero_relative_velocity_step [OF l rest_relative c] show ?thesis
    by (intro conjI)
qed

section \<open>The outcomes of a prediction\<close>

lemma acceleration_total: "m \<noteq> 0 \<Longrightarrow> \<exists>a. acceleration m f = Inr a"
  by (cases f) (simp add: acceleration_def js_div_def)

text \<open>
  A step computes finite numbers when the density is a number, the mass of the phase is
  not zero and the latitude is not a pole.
\<close>

lemma simStep_defined:
  assumes "stepDensity env s = Inr rho"
    and "isAscending s \<longrightarrow> mass (env_descentSettings env) \<noteq> 0"
    and "cos (currentLat s * pi / 180) \<noteq> 0"
  shows "\<exists>s'. simStep env s = Inr s'"
proof -
  obtain rel where rel: "relativeVelocity env s = Inr rel"
    using relativeVelocity_defined by blast
  obtain m area cd where
    pp: "phaseParameters (env_descentSettings env) (isAscending s) = (m, area, cd)"
    by (cases "phaseParameters (env_descentSettings env) (isAscending s)")
  have "m \<noteq> 0"
    using assms(2) pp by (auto simp add: phaseParameters_def split: if_splits)
  then obtain a where a: "acceleration m (dragForce rho cd area rel) = Inr a"
    using acceleration_total by blast
  obtain aN aE aU where t: "a = (aN, aE, aU)"
    by (cases a)
  obtain s' where "integrate env s (aN, aE, aU) = Inr s'"
    using integrate_velocity [OF assms(3)] by blast
  then have "simStep env s = Inr s'"
    using assms(1) rel pp a t by (simp add: simStep_def)
  then show ?thesis by blast
qed

lemma loopState_isAscending: "loopState env s0 s \<Longrightarrow> isAscending s \<Longrightarrow> isAscending s0"
  by (induction rule: loopState.induct) (auto dest: simStep_isAscending)

lemma sample_states:
  assumes "loopState (simEnv 50000 49999 rho0 scenarioDescent calmWind)
             (initialState 0 1 50000 0 0 (- 10)) s"
  shows "s = initialState 0 1 50000 0 0 (- 10) \<or> s = sampleLanded"
  using assms
proof (induction rule: loopState.induct)
  case start
  show ?case by simp
next
  case (step u u')
  from step.IH show ?case
  proof
    assume "u = initialState 0 1 50000 0 0 (- 10)"
    with step.hyps(4) show ?thesis
      by (simp add: sample_step)
  next
    assume "u = sampleLanded"
    with step.hyps(2) show ?thesis
      by (simp add: sampleLanded_def)
  qed
qed

text \<open>
  Claim C1. \<^verbatim>\<open>predictLanding\<close> returns \<^verbatim>\<open>null\<close> if and only if the altitude is below 5 m or
  both \<open>|lat|\<close> and \<open>|lon|\<close> are below 0.0001. For every other input it returns the
  prediction built from the state in which the loop stops; the function is total, so that
  no input raises. That prediction is one of finite numbers, \<open>Inr (Some r)\<close>, whenever the
  mass is not zero in an ascent and no state of the loop lies on a pole of the exact model;
  \<open>Inl NotFinite\<close> is a returned prediction too.
\<close>

theorem predictLanding_outcomes:
  fixes lat lon alt :: real
  shows "(predictLanding lat lon alt vSpeedCurrent hSpeedCurrent headingCurrent
            descentSettings windSettings landingSettings groundAlt currentDensity history = Inr None
            \<longleftrightarrow> alt < 5 \<or> (\<bar>lat\<bar> < 0.0001 \<and> \<bar>lon\<bar> < 0.0001))
       \<and> (\<not> (alt < 5 \<or> (\<bar>lat\<bar> < 0.0001 \<and> \<bar>lon\<bar> < 0.0001)) \<longrightarrow>
            predictLanding lat lon alt vSpeedCurrent hSpeedCurrent headingCurrent
            descentSettings windSettings landingSettings groundAlt currentDensity history
            = (case simLoop (simEnv alt groundAlt currentDensity descentSettings windSettings)
                    (initialState lat lon alt
                       (fst (fuseVelocity history hSpeedCurrent headingCurrent landingSettings))
                       (snd (fuseVelocity history hSpeedCurrent headingCurrent landingSettings))
                       vSpeedCurrent) of
                 Inl e \<Rightarrow> Inl e
               | Inr s \<Rightarrow>
                   Inr (Some \<lparr>LandingPrediction.lat = currentLat s,
                              lon = currentLon s,
                              timeToImpact = t s,
                              confidenceRadius = 15 + (alt * 0.05) + (t s * 0.5),
                              path =
                                (if length (SimState.path s) > 0
                                    \<and> PathPoint.alt
                                        (SimState.path s ! (length (SimState.path s) - 1))
                                        > groundAlt
                                 then SimState.path s
                                        @ [\<lparr>PathPoint.lat = currentLat s, lon = currentLon s,
                                             alt = groundAlt\<rparr>]
                                 else SimState.path s)\<rparr>)))
       \<and> (\<not> (alt < 5 \<or> (\<bar>lat\<bar> < 0.0001 \<and> \<bar>lon\<bar> < 0.0001))
            \<and> (0 < vSpeedCurrent \<longrightarrow> mass descentSettings \<noteq> 0)
            \<and> (\<forall>s. loopState (simEnv alt groundAlt currentDensity descentSettings windSettings)
                       (initialState lat lon alt
                   (fst (fuseVelocity history hSpeedCurrent headingCurrent landingSettings))
                   (snd (fuseVelocity history hSpeedCurrent headingCurrent landingSettings))
                   vSpeedCurrent) s
                     \<longrightarrow> cos (currentLat s * pi / 180) \<noteq> 0) \<longrightarrow>
            (\<exists>r. predictLanding lat lon alt vSpeedCurrent hSpeedCurrent headingCurrent
            descentSettings windSettings landingSettings groundAlt currentDensity history = Inr (Some r)))"
proof (intro conjI impI)
  show "predictLanding lat lon alt vSpeedCurrent hSpeedCurrent headingCurrent
            descentSettings windSettings landingSettings groundAlt currentDensity history = Inr None
          \<longleftrightarrow> alt < 5 \<or> (\<bar>lat\<bar> < 0.0001 \<and> \<bar>lon\<bar> < 0.0001)"
    by (auto simp add: predictLanding_def Let_def split: prod.splits sum.splits)
next
  assume "\<not> (alt < 5 \<or> (\<bar>lat\<bar> < 0.0001 \<and> \<bar>lon\<bar> < 0.0001))"
  then have "\<not> alt < 5" "\<not> (\<bar>lat\<bar> < 0.0001 \<and> \<bar>lon\<bar> < 0.0001)"
    by blast+
  then show "predictLanding lat lon alt vSpeedCurrent hSpeedCurrent headingCurrent
            descentSettings windSettings landingSettings groundAlt currentDensity history
            = (case simLoop (simEnv alt groundAlt currentDensity descentSettings windSettings)
                    (initialState lat lon alt
                       (fst (fuseVelocity history hSpeedCurrent headingCurrent landingSettings))
                       (snd (fuseVelocity history hSpeedCurrent headingCurrent landingSettings))
                       vSpeedCurrent) of
                 Inl e \<Rightarrow> Inl e
               | Inr s \<Rightarrow>
                   Inr (Some \<lparr>LandingPrediction.lat = currentLat s,
                              lon = currentLon s,
                              timeToImpact = t s,
                              confidenceRadius = 15 + (alt * 0.05) + (t s * 0.5),
                              path =
                                (if length (SimState.path s) > 0
                                    \<and> PathPoint.alt
                                        (SimState.path s ! (length (SimState.path s) - 1))
                                        > groundAlt
                                 then SimState.path s
                                        @ [\<lparr>PathPoint.lat = currentLat s, lon = currentLon s,
                                             alt = groundAlt\<rparr>]
                                 else SimState.path s)\<rparr>))"
    by (rule predictLanding_unfold)
next
  define env where "env = simEnv alt groundAlt currentDensity descentSettings windSettings"
  define s0 where "s0 = initialState lat lon alt
                   (fst (fuseVelocity history hSpeedCurrent headingCurrent landingSettings))
                   (snd (fuseVelocity history hSpeedCurrent headingCurrent landingSettings))
                   vSpeedCurrent"
  assume a: "\<not> (alt < 5 \<or> (\<bar>lat\<bar> < 0.0001 \<and> \<bar>lon\<bar> < 0.0001))
            \<and> (0 < vSpeedCurrent \<longrightarrow> mass descentSettings \<noteq> 0)
            \<and> (\<forall>s. loopState (simEnv alt groundAlt currentDensity descentSettings windSettings)
                       (initialState lat lon alt
                   (fst (fuseVelocity history hSpeedCurrent headingCurrent landingSettings))
                   (snd (fuseVelocity history hSpeedCurrent headingCurrent landingSettings))
                   vSpeedCurrent) s
                     \<longrightarrow> cos (currentLat s * pi / 180) \<noteq> 0)"
  then have ok: "\<not> alt < 5" "\<not> (\<bar>lat\<bar> < 0.0001 \<and> \<bar>lon\<bar> < 0.0001)"
    and m: "0 < vSpeedCurrent \<longrightarrow> mass descentSettings \<noteq> 0"
    and pole: "\<And>s. loopState env s0 s \<Longrightarrow> cos (currentLat s * pi / 180) \<noteq> 0"
    unfolding env_def s0_def by blast+
  have "\<exists>s. simLoop env s0 = Inr s"
  proof (cases "simLoop env s0")
    case (Inr s)
    then show ?thesis by blast
  next
    case (Inl e)
    from simLoop_not_finite [OF this] obtain u where u: "loopState env s0 u"
      and bad: "simStep env u = Inl e"
      by blast
    obtain rho where rho: "stepDensity env u = Inr rho"
      using stepDensity_defined u unfolding env_def s0_def by blast
    have "isAscending u \<longrightarrow> mass (env_descentSettings env) \<noteq> 0"
    proof
      assume "isAscending u"
      with u have "isAscending s0" by (rule loopState_isAscending)
      with m show "mass (env_descentSettings env) \<noteq> 0"
        by (simp add: s0_def env_def)
    qed
    from simStep_defined [OF rho this pole [OF u]] bad show ?thesis
      by simp
  qed
  then obtain s where "simLoop env s0 = Inr s"
    by blast
  then show "\<exists>r. predictLanding lat lon alt vSpeedCurrent hSpeedCurrent headingCurrent
            descentSettings windSettings landingSettings groundAlt currentDensity history = Inr (Some r)"
    unfolding predictLanding_unfold [OF ok] env_def s0_def by simp
qed

theorem predictLanding_outcomes_witness:
  "\<not> ((50000::real) < 5 \<or> (\<bar>0::real\<bar> < 0.0001 \<and> \<bar>1::real\<bar> < 0.0001))
   \<and> predictLanding 0 1 50000 (- 10) 0 0 scenarioDescent calmWind autoPolicy 49999 0 []
       \<noteq> Inr None
   \<and> (\<exists>r. predictLanding 0 1 50000 (- 10) 0 0 scenarioDescent calmWind autoPolicy 49999 0 []
            = Inr (Some r))"
proof -
  note b = predictLanding_outcomes [where lat = 0 and lon = 1 and alt = 50000
      and groundAlt = 49999 and currentDensity = 0 and descentSettings = scenarioDescent
      and windSettings = calmWind and vSpeedCurrent = "- 10"
      and hSpeedCurrent = 0 and headingCurrent = 0 and landingSettings = autoPolicy
      and history = "[]"]
  have ok: "\<not> ((50000::real) < 5 \<or> (\<bar>0::real\<bar> < 0.0001 \<and> \<bar>1::real\<bar> < 0.0001))"
    by simp
  have m: "0 < (- 10::real) \<longrightarrow> mass scenarioDescent \<noteq> 0"
    by simp
  have pole: "\<forall>s. loopState (simEnv 50000 49999 0 scenarioDescent calmWind)
                     (initialState 0 1 50000
                        (fst (fuseVelocity [] 0 0 autoPolicy))
                        (snd (fuseVelocity [] 0 0 autoPolicy)) (- 10)) s
                   \<longrightarrow> cos (currentLat s * pi / 180) \<noteq> 0"
  proof (intro allI impI)
    fix s
    assume "loopState (simEnv 50000 49999 0 scenarioDescent calmWind)
                     (initialState 0 1 50000
                        (fst (fuseVelocity [] 0 0 autoPolicy))
                        (snd (fuseVelocity [] 0 0 autoPolicy)) (- 10)) s"
    then have "loopState (simEnv 50000 49999 0 scenarioDescent calmWind)
                 (initialState 0 1 50000 0 0 (- 10)) s"
      by (simp add: sample_fuse)
    then have "s = initialState 0 1 50000 0 0 (- 10) \<or> s = sampleLanded"
      by (rule sample_states)
    then have "currentLat s = 0"
      by (auto simp add: sampleLanded_def)
    then show "cos (currentLat s * pi / 180) \<noteq> 0"
      by simp
  qed
  from b ok have "predictLanding 0 1 50000 (- 10) 0 0 scenarioDescent calmWind autoPolicy
                    49999 0 [] \<noteq> Inr None"
    by blast
  moreover from b ok m pole
  have "\<exists>r. predictLanding 0 1 50000 (- 10) 0 0 scenarioDescent calmWind autoPolicy 49999 0 []
            = Inr (Some r)"
    by blast
  ultimately show ?thesis
    using ok by blast
qed

end
